theory Spec2Isabelle
  imports Complex_Main
begin

section \<open>Data model of \<open>scripts/extrude.py\<close>\<close>

text \<open>
  The two mesh builders copy coordinates and heights; they never compute with them.
  A Python float is therefore a finite real or one of the three non-finite values.
  The integer literal \<open>0\<close> that the wall builder writes as base height is \<open>Fin 0\<close>
  (Python's \<open>0 == 0.0\<close>).
\<close>

datatype pyfloat = Fin real | PInf | NInf | NaN

text \<open>Python's \<open>==\<close> on floats: NaN is equal to nothing, itself included.\<close>

definition float_eq :: "pyfloat \<Rightarrow> pyfloat \<Rightarrow> bool" where
  "float_eq a b = (a \<noteq> NaN \<and> a = b)"

text \<open>
  An element of \<open>list(poly.exterior.coords)\<close> is a tuple of two floats, or of three
  when the geometry carries a z ordinate.
\<close>

datatype point = P2 pyfloat pyfloat | P3 pyfloat pyfloat pyfloat

text \<open>Tuple equality: same length and componentwise \<open>==\<close>.\<close>

fun point_eq :: "point \<Rightarrow> point \<Rightarrow> bool" where
  "point_eq (P2 a b) (P2 c d) = (float_eq a c \<and> float_eq b d)"
| "point_eq (P3 a b e) (P3 c d f) = (float_eq a c \<and> float_eq b d \<and> float_eq e f)"
| "point_eq _ _ = False"

text \<open>\<open>c[0]\<close> and \<open>c[1]\<close> of a coordinate tuple.\<close>

fun coord0 :: "point \<Rightarrow> pyfloat" where
  "coord0 (P2 a b) = a"
| "coord0 (P3 a b c) = a"

fun coord1 :: "point \<Rightarrow> pyfloat" where
  "coord1 (P2 a b) = b"
| "coord1 (P3 a b c) = b"

datatype py_error = ValueError

text \<open>
  The unpacking \<open>x1, y1 = boundary[idx]\<close>: a tuple of three values raises
  \<open>ValueError\<close> (too many values to unpack).
\<close>

fun unpack2 :: "point \<Rightarrow> py_error + pyfloat \<times> pyfloat" where
  "unpack2 (P2 a b) = Inr (a, b)"
| "unpack2 (P3 a b c) = Inl ValueError"

text \<open>
  A shapely polygon: the code reads \<open>poly.exterior.coords\<close> only; the interior rings
  are there for the triangulation, which receives the whole polygon.
\<close>

record polygon =
  exterior :: "point list"
  interiors :: "point list list"

datatype geometry = Polygon polygon | MultiPolygon "polygon list"

text \<open>
  Lines 13--16 and 59--62: \<open>list(geometry.geoms)\<close> for a MultiPolygon,
  \<open>[geometry]\<close> otherwise. Both functions go on to read \<open>.exterior\<close>, so a geometry
  is a polygon or a multipolygon.
\<close>

fun polys_of :: "geometry \<Rightarrow> polygon list" where
  "polys_of (MultiPolygon ps) = ps"
| "polys_of (Polygon p) = [p]"

text \<open>
  The returned dictionary with the keys \<open>x\<close>, \<open>y\<close>, \<open>z\<close>, \<open>i\<close>, \<open>j\<close>, \<open>k\<close>:
  three parallel coordinate lists and three parallel index lists.
\<close>

record fragment =
  mesh_x :: "pyfloat list"
  mesh_y :: "pyfloat list"
  mesh_z :: "pyfloat list"
  mesh_i :: "int list"
  mesh_j :: "int list"
  mesh_k :: "int list"

definition empty_fragment :: fragment where
  "empty_fragment =
     \<lparr>mesh_x = [], mesh_y = [], mesh_z = [], mesh_i = [], mesh_j = [], mesh_k = []\<rparr>"

section \<open>\<open>polygon_to_3d_top\<close>\<close>

text \<open>
  \<open>shapely.ops.triangulate\<close> is a library function; it is a parameter of the model,
  from a polygon to the list of triangles (polygons again) it returns. The state of the
  loops is the six lists together with \<open>vertex_offset\<close>.
\<close>

type_synonym builder = "fragment \<times> int"

text \<open>Lines 25--38, the body of the inner loop, for one triangle.\<close>

definition top_tri :: "pyfloat \<Rightarrow> builder \<Rightarrow> polygon \<Rightarrow> builder" where
  "top_tri z_top st tri =
     (case st of (m, vertex_offset) \<Rightarrow>
        let coords = exterior tri;
            x_coords = map coord0 (take 3 coords);
            y_coords = map coord1 (take 3 coords);
            z_coords = [z_top, z_top, z_top]
        in (m\<lparr>mesh_x := mesh_x m @ x_coords,
               mesh_y := mesh_y m @ y_coords,
               mesh_z := mesh_z m @ z_coords,
               mesh_i := mesh_i m @ [vertex_offset + 0],
               mesh_j := mesh_j m @ [vertex_offset + 1],
               mesh_k := mesh_k m @ [vertex_offset + 2]\<rparr>,
            vertex_offset + 3))"

text \<open>Lines 23--24, the body of the outer loop, for one polygon.\<close>

definition top_poly :: "(polygon \<Rightarrow> polygon list) \<Rightarrow> pyfloat \<Rightarrow> builder \<Rightarrow> polygon \<Rightarrow> builder" where
  "top_poly triangulate z_top st poly = foldl (top_tri z_top) st (triangulate poly)"

definition polygon_to_3d_top :: "(polygon \<Rightarrow> polygon list) \<Rightarrow> geometry \<Rightarrow> pyfloat \<Rightarrow> fragment" where
  "polygon_to_3d_top triangulate geometry z_top =
     fst (foldl (top_poly triangulate z_top) (empty_fragment, 0) (polys_of geometry))"

section \<open>\<open>polygon_side_walls\<close>\<close>

text \<open>A \<open>for\<close> loop whose body may raise: the first error ends the loop.\<close>

fun for_each :: "('s \<Rightarrow> 'a \<Rightarrow> 'e + 's) \<Rightarrow> 'a list \<Rightarrow> 's \<Rightarrow> 'e + 's" where
  "for_each body [] s = Inr s"
| "for_each body (a # as) s =
     (case body s a of Inl e \<Rightarrow> Inl e | Inr s' \<Rightarrow> for_each body as s')"

text \<open>Lines 68--69: the closing vertex is dropped when it repeats the first one.\<close>

definition strip_closing :: "point list \<Rightarrow> point list" where
  "strip_closing boundary =
     (if length boundary > 1 \<and> point_eq (boundary ! 0) (last boundary)
      then butlast boundary else boundary)"

text \<open>
  Lines 73--94, the body of the edge loop. It runs for \<open>idx < n\<close> only, so both
  subscripts are in range.
\<close>

definition wall_edge :: "point list \<Rightarrow> pyfloat \<Rightarrow> builder \<Rightarrow> nat \<Rightarrow> py_error + builder" where
  "wall_edge boundary z_top st idx =
     (case st of (m, vertex_offset) \<Rightarrow>
        let n = length boundary in
        (case unpack2 (boundary ! idx) of
          Inl e \<Rightarrow> Inl e
        | Inr (x1, y1) \<Rightarrow>
            (case unpack2 (boundary ! ((idx + 1) mod n)) of
               Inl e \<Rightarrow> Inl e
             | Inr (x2, y2) \<Rightarrow>
                 let top1 = (x1, y1, z_top);
                     top2 = (x2, y2, z_top);
                     bot1 = (x1, y1, Fin 0);
                     bot2 = (x2, y2, Fin 0)
                 in Inr (m\<lparr>mesh_x := mesh_x m @ [fst top1, fst top2, fst bot1, fst bot2],
                           mesh_y := mesh_y m @
                             [fst (snd top1), fst (snd top2), fst (snd bot1), fst (snd bot2)],
                           mesh_z := mesh_z m @
                             [snd (snd top1), snd (snd top2), snd (snd bot1), snd (snd bot2)],
                           mesh_i := mesh_i m @ [vertex_offset + 0, vertex_offset + 1],
                           mesh_j := mesh_j m @ [vertex_offset + 1, vertex_offset + 3],
                           mesh_k := mesh_k m @ [vertex_offset + 2, vertex_offset + 2]\<rparr>,
                         vertex_offset + 4))))"

text \<open>Lines 66--71, the body of the polygon loop.\<close>

definition wall_poly :: "pyfloat \<Rightarrow> builder \<Rightarrow> polygon \<Rightarrow> py_error + builder" where
  "wall_poly z_top st poly =
     (let boundary = strip_closing (exterior poly);
          n = length boundary
      in for_each (wall_edge boundary z_top) [0..<n] st)"

definition polygon_side_walls :: "geometry \<Rightarrow> pyfloat \<Rightarrow> py_error + fragment" where
  "polygon_side_walls geometry z_top =
     (case for_each (wall_poly z_top) (polys_of geometry) (empty_fragment, 0) of
        Inl e \<Rightarrow> Inl e
      | Inr (m, vertex_offset) \<Rightarrow> Inr m)"

section \<open>Closed forms and vocabulary of the statements\<close>

text \<open>
  Two fragments laid end to end, list by list, the indices left as they are: what the
  \<open>extend\<close> and \<open>append\<close> calls of one loop pass do to the six lists.
\<close>

definition frag_append :: "fragment \<Rightarrow> fragment \<Rightarrow> fragment" where
  "frag_append a b =
     \<lparr>mesh_x = mesh_x a @ mesh_x b, mesh_y = mesh_y a @ mesh_y b, mesh_z = mesh_z a @ mesh_z b,
      mesh_i = mesh_i a @ mesh_i b, mesh_j = mesh_j a @ mesh_j b, mesh_k = mesh_k a @ mesh_k b\<rparr>"

text \<open>
  A coordinate tuple of two components, the only kind the unpacking accepts.
\<close>

fun is_2d :: "point \<Rightarrow> bool" where
  "is_2d (P2 a b) = True"
| "is_2d (P3 a b c) = False"

text \<open>
  The wall fragment as the specification describes it, for a list of edges
  \<open>(p, q)\<close> and a first vertex offset: per edge the vertices top1, top2, bot1, bot2
  (so \<open>x\<close> and \<open>y\<close> of \<open>p\<close>, \<open>q\<close>, \<open>p\<close>, \<open>q\<close>, and \<open>z\<close> twice \<open>z_top\<close> and twice
  \<open>0\<close>), and the triangles \<open>(0, 1, 2)\<close> and \<open>(1, 3, 2)\<close> relative to an offset that grows
  by four per edge. It is compared with the code below and appears in no statement of
  a claim.
\<close>

definition wall_fragment :: "(point \<times> point) list \<Rightarrow> pyfloat \<Rightarrow> int \<Rightarrow> fragment" where
  "wall_fragment es z_top off =
     \<lparr>mesh_x = concat (map (\<lambda>(p, q). [coord0 p, coord0 q, coord0 p, coord0 q]) es),
      mesh_y = concat (map (\<lambda>(p, q). [coord1 p, coord1 q, coord1 p, coord1 q]) es),
      mesh_z = concat (map (\<lambda>e. [z_top, z_top, Fin 0, Fin 0]) es),
      mesh_i = concat (map (\<lambda>e. [off + 4 * int e, off + 4 * int e + 1]) [0..<length es]),
      mesh_j = concat (map (\<lambda>e. [off + 4 * int e + 1, off + 4 * int e + 3]) [0..<length es]),
      mesh_k = concat (map (\<lambda>e. [off + 4 * int e + 2, off + 4 * int e + 2]) [0..<length es])\<rparr>"

text \<open>
  Edge \<open>idx\<close> of a boundary: from vertex \<open>idx\<close> to vertex \<open>(idx + 1) mod n\<close>.
\<close>

definition edge_at :: "point list \<Rightarrow> nat \<Rightarrow> point \<times> point" where
  "edge_at boundary idx = (boundary ! idx, boundary ! ((idx + 1) mod length boundary))"

definition edge_2d :: "point \<times> point \<Rightarrow> bool" where
  "edge_2d e = (is_2d (fst e) \<and> is_2d (snd e))"

text \<open>
  The edges the code walks: those of each constituent polygon's stripped boundary, one
  polygon after the other.
\<close>

definition wall_edges :: "polygon \<Rightarrow> (point \<times> point) list" where
  "wall_edges poly =
     (let boundary = strip_closing (exterior poly)
      in map (edge_at boundary) [0..<length boundary])"

definition all_wall_edges :: "geometry \<Rightarrow> (point \<times> point) list" where
  "all_wall_edges geometry = concat (map wall_edges (polys_of geometry))"

text \<open>
  Every coordinate tuple of every exterior ring has two components. The data model of
  the specification (a polygon is a sequence of 2D points) and the docstring of
  \<open>polygon_to_3d_top\<close> take this for granted; on any other geometry the wall builder
  raises \<open>ValueError\<close> (\<open>polygon_side_walls_eq\<close> below).
\<close>

definition geom_2d :: "geometry \<Rightarrow> bool" where
  "geom_2d geometry = list_all (\<lambda>p. list_all is_2d (exterior p)) (polys_of geometry)"

text \<open>
  The top fragment as the specification describes it, for a list of triangles and a
  first vertex offset: per triangle its first three coordinates at height \<open>z_top\<close> and
  the index triple \<open>(offset, offset + 1, offset + 2)\<close>, the offset growing by three.
  Like \<open>wall_fragment\<close> it serves the proofs only.
\<close>

definition top_fragment :: "polygon list \<Rightarrow> pyfloat \<Rightarrow> int \<Rightarrow> fragment" where
  "top_fragment ts z_top off =
     \<lparr>mesh_x = concat (map (\<lambda>t. map coord0 (take 3 (exterior t))) ts),
      mesh_y = concat (map (\<lambda>t. map coord1 (take 3 (exterior t))) ts),
      mesh_z = concat (map (\<lambda>t. [z_top, z_top, z_top]) ts),
      mesh_i = map (\<lambda>t. off + 3 * int t) [0..<length ts],
      mesh_j = map (\<lambda>t. off + 3 * int t + 1) [0..<length ts],
      mesh_k = map (\<lambda>t. off + 3 * int t + 2) [0..<length ts]\<rparr>"

text \<open>
  The triangles the code visits: those of each constituent polygon, in order.
\<close>

definition all_triangles :: "(polygon \<Rightarrow> polygon list) \<Rightarrow> geometry \<Rightarrow> polygon list" where
  "all_triangles triangulate geometry = concat (map triangulate (polys_of geometry))"

text \<open>
  The number of edges walked before the \<open>k\<close>-th constituent polygon is reached: the
  sum of \<open>n = len(boundary)\<close> over the polygons before it.
\<close>

definition edge_base :: "polygon list \<Rightarrow> nat \<Rightarrow> nat" where
  "edge_base ps k = sum_list (map (\<lambda>p. length (strip_closing (exterior p))) (take k ps))"

text \<open>
  The number of edges of a geometry: the sum of \<open>n\<close> over all its polygons.
\<close>

definition edge_count :: "geometry \<Rightarrow> nat" where
  "edge_count geometry = edge_base (polys_of geometry) (length (polys_of geometry))"

text \<open>
  The unit square of the specification's scenario, as shapely hands it over (the ring
  closed), and a second square apart from it.
\<close>

definition unit_square :: polygon where
  "unit_square =
     \<lparr>exterior = [P2 (Fin 0) (Fin 0), P2 (Fin 1) (Fin 0), P2 (Fin 1) (Fin 1),
                  P2 (Fin 0) (Fin 1), P2 (Fin 0) (Fin 0)],
      interiors = []\<rparr>"

definition far_square :: polygon where
  "far_square =
     \<lparr>exterior = [P2 (Fin 5) (Fin 5), P2 (Fin 6) (Fin 5), P2 (Fin 6) (Fin 6),
                  P2 (Fin 5) (Fin 6), P2 (Fin 5) (Fin 5)],
      interiors = []\<rparr>"

text \<open>
  Well-formedness of a fragment: parallel lists of equal length, and every index a
  position of the coordinate lists.
\<close>

definition index_ok :: "fragment \<Rightarrow> int \<Rightarrow> bool" where
  "index_ok f v = (0 \<le> v \<and> v < int (length (mesh_x f)))"

definition well_formed :: "fragment \<Rightarrow> bool" where
  "well_formed f =
     (length (mesh_x f) = length (mesh_y f) \<and> length (mesh_y f) = length (mesh_z f) \<and>
      length (mesh_i f) = length (mesh_j f) \<and> length (mesh_j f) = length (mesh_k f) \<and>
      list_all (index_ok f) (mesh_i f) \<and> list_all (index_ok f) (mesh_j f) \<and>
      list_all (index_ok f) (mesh_k f))"

text \<open>
  What the code relies on from \<open>shapely.ops.triangulate\<close>: every triangle it returns
  has at least three coordinates (the library returns closed rings of four).
\<close>

definition proper_triangles :: "(polygon \<Rightarrow> polygon list) \<Rightarrow> geometry \<Rightarrow> bool" where
  "proper_triangles triangulate geometry =
     list_all (\<lambda>tri. 3 \<le> length (exterior tri)) (all_triangles triangulate geometry)"

text \<open>
  A triangulation to run the top surface on: a quadrilateral is cut along the diagonal
  from its first vertex, each triangle a closed ring of four coordinates.
\<close>

definition diagonal_split :: "polygon \<Rightarrow> polygon list" where
  "diagonal_split poly =
     (case exterior poly of
        a # b # c # d # rest \<Rightarrow>
          [\<lparr>exterior = [a, b, c, a], interiors = []\<rparr>, \<lparr>exterior = [a, c, d, a], interiors = []\<rparr>]
      | _ \<Rightarrow> [])"

text \<open>
  Concatenation of fragments with shifted vertex offsets: the indices of the second
  fragment are raised by the number of vertices of the first.
\<close>

definition shift_fragment :: "int \<Rightarrow> fragment \<Rightarrow> fragment" where
  "shift_fragment d f =
     f\<lparr>mesh_i := map (\<lambda>v. v + d) (mesh_i f),
       mesh_j := map (\<lambda>v. v + d) (mesh_j f),
       mesh_k := map (\<lambda>v. v + d) (mesh_k f)\<rparr>"

definition append_fragment :: "fragment \<Rightarrow> fragment \<Rightarrow> fragment" where
  "append_fragment a b = frag_append a (shift_fragment (int (length (mesh_x a))) b)"

definition concat_fragments :: "fragment list \<Rightarrow> fragment" where
  "concat_fragments fs = foldl append_fragment empty_fragment fs"

text \<open>
  The vertices of the \<open>n\<close>-th of the concatenated fragments occupy the positions from
  \<open>block_start fs n\<close> up to, not including, \<open>block_start fs (Suc n)\<close>. A triangle lies in
  a block when its three indices do; no triangle crosses when every triangle lies in
  the block of some constituent.
\<close>

definition block_start :: "fragment list \<Rightarrow> nat \<Rightarrow> nat" where
  "block_start fs n = sum_list (map (\<lambda>f. length (mesh_x f)) (take n fs))"

definition tri_in_block :: "fragment \<Rightarrow> nat \<Rightarrow> nat \<Rightarrow> nat \<Rightarrow> bool" where
  "tri_in_block f lo hi t =
     (int lo \<le> mesh_i f ! t \<and> mesh_i f ! t < int hi \<and>
      int lo \<le> mesh_j f ! t \<and> mesh_j f ! t < int hi \<and>
      int lo \<le> mesh_k f ! t \<and> mesh_k f ! t < int hi)"

definition no_cross_triangles :: "fragment list \<Rightarrow> fragment \<Rightarrow> bool" where
  "no_cross_triangles fs f =
     list_all
       (\<lambda>t. list_ex (\<lambda>n. tri_in_block f (block_start fs n) (block_start fs (Suc n)) t)
              [0..<length fs])
       [0..<length (mesh_i f)]"

text \<open>
  A closed ring through two distinct points only. Shapely builds it (a ring needs four
  coordinates, not four distinct ones).
\<close>

definition two_point_polygon :: polygon where
  "two_point_polygon =
     \<lparr>exterior = [P2 (Fin 0) (Fin 0), P2 (Fin 1) (Fin 1), P2 (Fin 1) (Fin 1), P2 (Fin 0) (Fin 0)],
      interiors = []\<rparr>"

text \<open>
  A ring whose vertices are collinear, and the triangulation of such a polygon: no
  triangle.
\<close>

definition collinear_polygon :: polygon where
  "collinear_polygon =
     \<lparr>exterior = [P2 (Fin 0) (Fin 0), P2 (Fin 1) (Fin 1), P2 (Fin 2) (Fin 2), P2 (Fin 0) (Fin 0)],
      interiors = []\<rparr>"

definition no_triangles :: "polygon \<Rightarrow> polygon list" where
  "no_triangles poly = []"

text \<open>
  \<open>math.isfinite\<close>.
\<close>

fun finite_height :: "pyfloat \<Rightarrow> bool" where
  "finite_height (Fin r) = True"
| "finite_height PInf = False"
| "finite_height NInf = False"
| "finite_height NaN = False"

section \<open>The wall builder in closed form\<close>

lemma frag_append_assoc: "frag_append (frag_append a b) c = frag_append a (frag_append b c)"
  by (simp add: frag_append_def)

lemma frag_append_empty [simp]: "frag_append a empty_fragment = a" "frag_append empty_fragment a = a"
  by (simp_all add: frag_append_def empty_fragment_def)

lemma upt_add_split: "[0..<a + b] = [0..<a] @ map (\<lambda>e. a + e) [0..<b]"
proof -
  have "[0..<a + b] = [0..<a] @ [a..<a + b]"
    by (rule upt_add_eq_append) simp
  moreover have "map (\<lambda>e. e + a) [0..<b] = [a..<b + a]"
    by (rule map_add_upt)
  moreover have "(\<lambda>e. e + a) = (\<lambda>e. a + e)"
    by (rule ext) (rule add.commute)
  moreover have "b + a = a + b"
    by (rule add.commute)
  ultimately show ?thesis by (simp only:)
qed

lemma concat_map_upt_add:
  "concat (map f [0..<a + b]) = concat (map f [0..<a]) @ concat (map (\<lambda>e. f (a + e)) [0..<b])"
  by (simp only: upt_add_split map_append concat_append map_map comp_def)

lemma wall_fragment_Nil: "wall_fragment [] z off = empty_fragment"
  by (simp add: wall_fragment_def empty_fragment_def)

lemma wall_fragment_append:
  "wall_fragment (es1 @ es2) z off =
     frag_append (wall_fragment es1 z off) (wall_fragment es2 z (off + 4 * int (length es1)))"
  by (simp add: wall_fragment_def frag_append_def concat_map_upt_add distrib_left add.assoc)

lemma unpack2_2d: "is_2d p \<Longrightarrow> unpack2 p = Inr (coord0 p, coord1 p)"
  by (cases p) simp_all

lemma unpack2_3d: "\<not> is_2d p \<Longrightarrow> unpack2 p = Inl ValueError"
  by (cases p) simp_all

lemma wall_edge_step:
  "wall_edge b z (m, off) idx =
     (if edge_2d (edge_at b idx)
      then Inr (frag_append m (wall_fragment [edge_at b idx] z off), off + 4)
      else Inl ValueError)"
  by (cases "is_2d (b ! idx)"; cases "is_2d (b ! ((idx + 1) mod length b))")
     (simp_all add: wall_edge_def edge_2d_def edge_at_def unpack2_2d unpack2_3d
        wall_fragment_def frag_append_def)

lemma wall_fragment_Cons:
  "wall_fragment (e # es) z off =
     frag_append (wall_fragment [e] z off) (wall_fragment es z (off + 4))"
  using wall_fragment_append [of "[e]" es z off] by simp

lemma for_each_wall_edge:
  "for_each (wall_edge b z) idxs (m, off) =
     (if list_all edge_2d (map (edge_at b) idxs)
      then Inr (frag_append m (wall_fragment (map (edge_at b) idxs) z off),
                off + 4 * int (length idxs))
      else Inl ValueError)"
proof (induction idxs arbitrary: m off)
  case Nil
  then show ?case by (simp add: wall_fragment_Nil)
next
  case (Cons idx idxs)
  have split: "wall_fragment (edge_at b idx # map (edge_at b) idxs) z off =
      frag_append (wall_fragment [edge_at b idx] z off)
        (wall_fragment (map (edge_at b) idxs) z (off + 4))"
    by (rule wall_fragment_Cons)
  show ?case
    by (simp add: wall_edge_step Cons.IH split frag_append_assoc add.assoc)
qed

lemma list_all_edge_2d:
  "list_all edge_2d (map (edge_at b) [0..<length b]) = list_all is_2d b"
proof
  assume "list_all edge_2d (map (edge_at b) [0..<length b])"
  then have "\<forall>i<length b. is_2d (b ! i)"
    by (simp add: list_all_iff edge_2d_def edge_at_def)
  then show "list_all is_2d b"
    by (simp add: list_all_length)
next
  assume a: "list_all is_2d b"
  have "edge_2d (edge_at b i)" if "i < length b" for i
  proof -
    from that have "0 < length b" by (cases b) simp_all
    then have "(i + 1) mod length b < length b" by (rule mod_less_divisor)
    with a that show ?thesis
      by (simp add: list_all_length edge_2d_def edge_at_def)
  qed
  then show "list_all edge_2d (map (edge_at b) [0..<length b])"
    by (simp add: list_all_iff)
qed

lemma point_eq_is_2d: "point_eq p q \<Longrightarrow> is_2d p = is_2d q"
  by (cases p; cases q) simp_all

lemma is_2d_strip_closing: "list_all is_2d (strip_closing b) = list_all is_2d b"
proof (cases "length b > 1 \<and> point_eq (b ! 0) (last b)")
  case False
  then have "strip_closing b = b" by (auto simp: strip_closing_def)
  then show ?thesis by simp
next
  case True
  then have ne: "b \<noteq> []" by auto
  from True have len: "0 < length (butlast b)" by simp
  have b: "b = butlast b @ [last b]" using ne by simp
  have "butlast b ! 0 = b ! 0"
    using len by (rule nth_butlast)
  moreover have "butlast b ! 0 \<in> set (butlast b)"
    using len by (rule nth_mem)
  ultimately have "b ! 0 \<in> set (butlast b)" by simp
  moreover have "is_2d (last b) = is_2d (b ! 0)"
    using True point_eq_is_2d by metis
  moreover have "list_all is_2d b = (list_all is_2d (butlast b) \<and> is_2d (last b))"
    by (subst b) simp
  ultimately show ?thesis
    using True by (auto simp: strip_closing_def list_all_iff)
qed

lemma wall_poly_eq:
  "wall_poly z (m, off) p =
     (if list_all is_2d (exterior p)
      then Inr (frag_append m (wall_fragment (wall_edges p) z off),
                off + 4 * int (length (wall_edges p)))
      else Inl ValueError)"
  by (simp add: wall_poly_def wall_edges_def Let_def for_each_wall_edge list_all_edge_2d
        is_2d_strip_closing)

lemma for_each_wall_poly:
  "for_each (wall_poly z) ps (m, off) =
     (if list_all (\<lambda>p. list_all is_2d (exterior p)) ps
      then Inr (frag_append m (wall_fragment (concat (map wall_edges ps)) z off),
                off + 4 * int (length (concat (map wall_edges ps))))
      else Inl ValueError)"
proof (induction ps arbitrary: m off)
  case Nil
  then show ?case by (simp add: wall_fragment_Nil)
next
  case (Cons p ps)
  show ?case
    by (simp add: wall_poly_eq Cons.IH wall_fragment_append frag_append_assoc
          distrib_left add.assoc)
qed

lemma polygon_side_walls_eq:
  "polygon_side_walls g z =
     (if geom_2d g then Inr (wall_fragment (all_wall_edges g) z 0) else Inl ValueError)"
  by (simp add: polygon_side_walls_def for_each_wall_poly geom_2d_def all_wall_edges_def)

section \<open>The top surface in closed form\<close>

lemma top_fragment_Nil: "top_fragment [] z off = empty_fragment"
  by (simp add: top_fragment_def empty_fragment_def)

lemma top_fragment_append:
  "top_fragment (ts1 @ ts2) z off =
     frag_append (top_fragment ts1 z off) (top_fragment ts2 z (off + 3 * int (length ts1)))"
  by (simp add: top_fragment_def frag_append_def upt_add_split distrib_left add.assoc comp_def)

lemma top_tri_step:
  "top_tri z (m, off) t = (frag_append m (top_fragment [t] z off), off + 3)"
  by (simp add: top_tri_def top_fragment_def frag_append_def Let_def)

lemma foldl_top_tri:
  "foldl (top_tri z) (m, off) ts =
     (frag_append m (top_fragment ts z off), off + 3 * int (length ts))"
proof (induction ts arbitrary: m off)
  case Nil
  then show ?case by (simp add: top_fragment_Nil)
next
  case (Cons t ts)
  have split: "top_fragment (t # ts) z off =
      frag_append (top_fragment [t] z off) (top_fragment ts z (off + 3))"
    using top_fragment_append [of "[t]" ts z off] by simp
  show ?case
    by (simp add: top_tri_step Cons.IH split frag_append_assoc add.assoc)
qed

lemma top_poly_step:
  "top_poly tr z (m, off) p =
     (frag_append m (top_fragment (tr p) z off), off + 3 * int (length (tr p)))"
  by (simp add: top_poly_def foldl_top_tri)

lemma foldl_top_poly:
  "foldl (top_poly tr z) (m, off) ps =
     (frag_append m (top_fragment (concat (map tr ps)) z off),
      off + 3 * int (length (concat (map tr ps))))"
proof (induction ps arbitrary: m off)
  case Nil
  then show ?case by (simp add: top_fragment_Nil)
next
  case (Cons p ps)
  show ?case
    by (simp add: top_poly_step Cons.IH top_fragment_append frag_append_assoc
          distrib_left add.assoc)
qed

lemma polygon_to_3d_top_eq:
  "polygon_to_3d_top tr g z = top_fragment (all_triangles tr g) z 0"
  by (simp add: polygon_to_3d_top_def foldl_top_poly all_triangles_def)

section \<open>Reading the closed forms\<close>

lemma length_concat_const:
  "(\<And>x. length (f x) = c) \<Longrightarrow> length (concat (map f xs)) = c * length xs"
  by (induction xs) simp_all

lemma nth_concat_const:
  "(\<And>x. length (f x) = c) \<Longrightarrow> e < length xs \<Longrightarrow> r < c \<Longrightarrow>
     concat (map f xs) ! (c * e + r) = f (xs ! e) ! r"
proof (induction xs arbitrary: e)
  case Nil
  then show ?case by simp
next
  case (Cons x xs)
  show ?case
  proof (cases e)
    case 0
    with Cons.prems show ?thesis by (simp add: nth_append)
  next
    case (Suc e')
    have "c * e + r = c + (c * e' + r)"
      using Suc by simp
    with Cons Suc show ?thesis by (simp add: nth_append)
  qed
qed

lemma length_wall_edges: "length (wall_edges p) = length (strip_closing (exterior p))"
  by (simp add: wall_edges_def Let_def)

lemma nth_wall_edges:
  "idx < length (strip_closing (exterior p)) \<Longrightarrow>
     wall_edges p ! idx = edge_at (strip_closing (exterior p)) idx"
  by (simp add: wall_edges_def Let_def)

lemma length_concat_wall_edges:
  "length (concat (map wall_edges ps)) = edge_base ps (length ps)"
  by (induction ps) (simp_all add: edge_base_def length_wall_edges)

lemma length_all_wall_edges: "length (all_wall_edges g) = edge_count g"
  by (simp add: all_wall_edges_def edge_count_def length_concat_wall_edges)

lemma edge_base_bound:
  "k < length ps \<Longrightarrow> idx < length (strip_closing (exterior (ps ! k))) \<Longrightarrow>
     edge_base ps k + idx < edge_base ps (length ps)"
proof (induction ps arbitrary: k)
  case Nil
  then show ?case by simp
next
  case (Cons p ps)
  then show ?case
    by (cases k) (auto simp: edge_base_def)
qed

lemma nth_concat_wall_edges:
  "k < length ps \<Longrightarrow> idx < length (strip_closing (exterior (ps ! k))) \<Longrightarrow>
     concat (map wall_edges ps) ! (edge_base ps k + idx) =
       edge_at (strip_closing (exterior (ps ! k))) idx"
proof (induction ps arbitrary: k)
  case Nil
  then show ?case by simp
next
  case (Cons p ps)
  show ?case
  proof (cases k)
    case 0
    with Cons.prems show ?thesis
      by (simp add: edge_base_def nth_append length_wall_edges nth_wall_edges)
  next
    case (Suc k')
    with Cons.prems have "concat (map wall_edges ps) ! (edge_base ps k' + idx) =
        edge_at (strip_closing (exterior (ps ! k'))) idx"
      by (intro Cons.IH) simp_all
    moreover have "edge_base (p # ps) k = length (wall_edges p) + edge_base ps k'"
      using Suc by (simp add: edge_base_def length_wall_edges)
    ultimately show ?thesis
      using Suc by (simp add: nth_append add.assoc)
  qed
qed

text \<open>Reading the closed form of the wall fragment.\<close>

lemma wall_fragment_lengths:
  "length (mesh_x (wall_fragment es z off)) = 4 * length es"
  "length (mesh_y (wall_fragment es z off)) = 4 * length es"
  "length (mesh_z (wall_fragment es z off)) = 4 * length es"
  "length (mesh_i (wall_fragment es z off)) = 2 * length es"
  "length (mesh_j (wall_fragment es z off)) = 2 * length es"
  "length (mesh_k (wall_fragment es z off)) = 2 * length es"
  by (simp_all add: wall_fragment_def length_concat_const split_def)

lemma wall_fragment_x:
  assumes "e < length es" and "r < 4"
  shows "mesh_x (wall_fragment es z off) ! (4 * e + r) =
           [coord0 (fst (es ! e)), coord0 (snd (es ! e)),
            coord0 (fst (es ! e)), coord0 (snd (es ! e))] ! r"
proof -
  have "concat (map (\<lambda>pq. [coord0 (fst pq), coord0 (snd pq), coord0 (fst pq), coord0 (snd pq)]) es)
          ! (4 * e + r) =
        [coord0 (fst (es ! e)), coord0 (snd (es ! e)),
         coord0 (fst (es ! e)), coord0 (snd (es ! e))] ! r"
    using assms by (intro nth_concat_const) simp_all
  then show ?thesis by (simp add: wall_fragment_def split_def)
qed

lemma wall_fragment_y:
  assumes "e < length es" and "r < 4"
  shows "mesh_y (wall_fragment es z off) ! (4 * e + r) =
           [coord1 (fst (es ! e)), coord1 (snd (es ! e)),
            coord1 (fst (es ! e)), coord1 (snd (es ! e))] ! r"
proof -
  have "concat (map (\<lambda>pq. [coord1 (fst pq), coord1 (snd pq), coord1 (fst pq), coord1 (snd pq)]) es)
          ! (4 * e + r) =
        [coord1 (fst (es ! e)), coord1 (snd (es ! e)),
         coord1 (fst (es ! e)), coord1 (snd (es ! e))] ! r"
    using assms by (intro nth_concat_const) simp_all
  then show ?thesis by (simp add: wall_fragment_def split_def)
qed

lemma wall_fragment_z:
  assumes "e < length es" and "r < 4"
  shows "mesh_z (wall_fragment es z off) ! (4 * e + r) = [z, z, Fin 0, Fin 0] ! r"
proof -
  have "concat (map (\<lambda>pq. [z, z, Fin 0, Fin 0]) es) ! (4 * e + r) = [z, z, Fin 0, Fin 0] ! r"
    using assms by (intro nth_concat_const) simp_all
  then show ?thesis by (simp add: wall_fragment_def)
qed

lemma wall_fragment_ijk:
  assumes "e < n" and "r < 2"
  shows "concat (map (\<lambda>e. [off + 4 * int e + a, off + 4 * int e + b]) [0..<n]) ! (2 * e + r) =
           [off + 4 * int e + a, off + 4 * int e + b] ! r"
proof -
  have "concat (map (\<lambda>e. [off + 4 * int e + a, off + 4 * int e + b]) [0..<n]) ! (2 * e + r) =
        [off + 4 * int ([0..<n] ! e) + a, off + 4 * int ([0..<n] ! e) + b] ! r"
    using assms by (intro nth_concat_const) simp_all
  with assms show ?thesis by simp
qed

lemma replicate_3_add: "replicate (3 + n) z = z # z # z # replicate n z"
  by (simp add: numeral_3_eq_3)

lemma concat_const_replicate: "concat (map (\<lambda>t. [z, z, z]) ts) = replicate (3 * length ts) z"
  by (induction ts) (simp_all add: replicate_3_add)

lemma edge_count_distinct:
  "list_all (\<lambda>p. distinct (strip_closing (exterior p))) ps \<Longrightarrow>
     edge_base ps (length ps) = sum_list (map (\<lambda>p. card (set (strip_closing (exterior p)))) ps)"
  by (induction ps) (simp_all add: edge_base_def distinct_card)

lemma strip_unit_square:
  "strip_closing (exterior unit_square) =
     [P2 (Fin 0) (Fin 0), P2 (Fin 1) (Fin 0), P2 (Fin 1) (Fin 1), P2 (Fin 0) (Fin 1)]"
  by (simp add: unit_square_def strip_closing_def float_eq_def)

lemma strip_far_square:
  "strip_closing (exterior far_square) =
     [P2 (Fin 5) (Fin 5), P2 (Fin 6) (Fin 5), P2 (Fin 6) (Fin 6), P2 (Fin 5) (Fin 6)]"
  by (simp add: far_square_def strip_closing_def float_eq_def)

lemma geom_2d_squares:
  "geom_2d (Polygon unit_square)" "geom_2d (MultiPolygon [unit_square, far_square])"
  by (simp_all add: geom_2d_def unit_square_def far_square_def)

lemma all_wall_edges_nth:
  assumes "k < length (polys_of g)"
    and "idx < length (strip_closing (exterior (polys_of g ! k)))"
  shows "edge_base (polys_of g) k + idx < length (all_wall_edges g)"
    and "all_wall_edges g ! (edge_base (polys_of g) k + idx) =
           edge_at (strip_closing (exterior (polys_of g ! k))) idx"
  using assms
  by (simp_all add: all_wall_edges_def length_concat_wall_edges edge_base_bound
        nth_concat_wall_edges)

lemma wall_fragment_vertices:
  assumes "e < length es"
  shows "mesh_x (wall_fragment es z off) ! (4 * e) = coord0 (fst (es ! e))"
    and "mesh_x (wall_fragment es z off) ! (4 * e + 1) = coord0 (snd (es ! e))"
    and "mesh_x (wall_fragment es z off) ! (4 * e + 2) = coord0 (fst (es ! e))"
    and "mesh_x (wall_fragment es z off) ! (4 * e + 3) = coord0 (snd (es ! e))"
    and "mesh_y (wall_fragment es z off) ! (4 * e) = coord1 (fst (es ! e))"
    and "mesh_y (wall_fragment es z off) ! (4 * e + 1) = coord1 (snd (es ! e))"
    and "mesh_y (wall_fragment es z off) ! (4 * e + 2) = coord1 (fst (es ! e))"
    and "mesh_y (wall_fragment es z off) ! (4 * e + 3) = coord1 (snd (es ! e))"
    and "mesh_z (wall_fragment es z off) ! (4 * e) = z"
    and "mesh_z (wall_fragment es z off) ! (4 * e + 1) = z"
    and "mesh_z (wall_fragment es z off) ! (4 * e + 2) = Fin 0"
    and "mesh_z (wall_fragment es z off) ! (4 * e + 3) = Fin 0"
  using wall_fragment_x [OF assms, of 0 z off] wall_fragment_x [OF assms, of 1 z off]
    wall_fragment_x [OF assms, of 2 z off] wall_fragment_x [OF assms, of 3 z off]
    wall_fragment_y [OF assms, of 0 z off] wall_fragment_y [OF assms, of 1 z off]
    wall_fragment_y [OF assms, of 2 z off] wall_fragment_y [OF assms, of 3 z off]
    wall_fragment_z [OF assms, of 0 z off] wall_fragment_z [OF assms, of 1 z off]
    wall_fragment_z [OF assms, of 2 z off] wall_fragment_z [OF assms, of 3 z off]
  by (simp_all add: numeral_2_eq_2 numeral_3_eq_3)

lemma wall_fragment_triangles:
  assumes "e < length es"
  shows "mesh_i (wall_fragment es z off) ! (2 * e) = off + 4 * int e"
    and "mesh_j (wall_fragment es z off) ! (2 * e) = off + 4 * int e + 1"
    and "mesh_k (wall_fragment es z off) ! (2 * e) = off + 4 * int e + 2"
    and "mesh_i (wall_fragment es z off) ! (2 * e + 1) = off + 4 * int e + 1"
    and "mesh_j (wall_fragment es z off) ! (2 * e + 1) = off + 4 * int e + 3"
    and "mesh_k (wall_fragment es z off) ! (2 * e + 1) = off + 4 * int e + 2"
  using wall_fragment_ijk [OF assms, of 0 off 0 1] wall_fragment_ijk [OF assms, of 1 off 0 1]
    wall_fragment_ijk [OF assms, of 0 off 1 3] wall_fragment_ijk [OF assms, of 1 off 1 3]
    wall_fragment_ijk [OF assms, of 0 off 2 2] wall_fragment_ijk [OF assms, of 1 off 2 2]
  by (simp_all add: wall_fragment_def)

lemma prev_index:
  assumes "idx < n"
  shows "nat ((int idx - 1) mod int n) < n"
    and "(nat ((int idx - 1) mod int n) + 1) mod n = idx"
proof -
  have n: "0 < n" using assms by simp
  show "nat ((int idx - 1) mod int n) < n"
    using n by (simp add: nat_less_iff)
  show "(nat ((int idx - 1) mod int n) + 1) mod n = idx"
  proof (cases idx)
    case 0
    have "(- 1) mod int n = int n - 1"
      using n by (simp add: zmod_minus1)
    then show ?thesis using 0 n by (simp add: nat_diff_distrib)
  next
    case (Suc i)
    then have "(int idx - 1) mod int n = int i"
      using assms by simp
    then show ?thesis using Suc assms by simp
  qed
qed

section \<open>Well-formed fragments\<close>

lemma wall_indices_ok:
  assumes "0 \<le> a" and "a < 4" and "0 \<le> b" and "b < 4"
  shows "list_all (\<lambda>v. 0 \<le> v \<and> v < int (4 * n))
           (concat (map (\<lambda>e. [4 * int e + a, 4 * int e + b]) [0..<n]))"
  using assms by (auto simp: list_all_iff)

lemma well_formed_wall_fragment: "well_formed (wall_fragment es z 0)"
proof -
  have len: "length (mesh_x (wall_fragment es z 0)) = 4 * length es"
    by (rule wall_fragment_lengths)
  have ok: "index_ok (wall_fragment es z 0) = (\<lambda>v. 0 \<le> v \<and> v < int (4 * length es))"
    by (rule ext) (simp add: index_ok_def len)
  have "list_all (index_ok (wall_fragment es z 0)) (mesh_i (wall_fragment es z 0))"
    using wall_indices_ok [of 0 1 "length es"]
    unfolding ok by (simp add: wall_fragment_def)
  moreover have "list_all (index_ok (wall_fragment es z 0)) (mesh_j (wall_fragment es z 0))"
    using wall_indices_ok [of 1 3 "length es"]
    unfolding ok by (simp add: wall_fragment_def)
  moreover have "list_all (index_ok (wall_fragment es z 0)) (mesh_k (wall_fragment es z 0))"
    using wall_indices_ok [of 2 2 "length es"]
    unfolding ok by (simp add: wall_fragment_def)
  ultimately show ?thesis
    by (simp add: well_formed_def wall_fragment_lengths)
qed

lemma top_fragment_lengths:
  "length (mesh_x (top_fragment ts z off)) = length (mesh_y (top_fragment ts z off))"
  "length (mesh_z (top_fragment ts z off)) = 3 * length ts"
  "length (mesh_i (top_fragment ts z off)) = length ts"
  "length (mesh_j (top_fragment ts z off)) = length ts"
  "length (mesh_k (top_fragment ts z off)) = length ts"
  by (simp_all add: top_fragment_def concat_const_replicate length_concat comp_def)

lemma top_fragment_length_x:
  "list_all (\<lambda>tri. 3 \<le> length (exterior tri)) ts \<Longrightarrow>
     length (mesh_x (top_fragment ts z off)) = 3 * length ts"
  by (induction ts) (simp_all add: top_fragment_def)

lemma top_indices_ok:
  assumes "0 \<le> a" and "a < 3"
  shows "list_all (\<lambda>v. 0 \<le> v \<and> v < int (3 * n)) (map (\<lambda>t. 3 * int t + a) [0..<n])"
  using assms by (auto simp: list_all_iff)

lemma well_formed_top_fragment:
  assumes "list_all (\<lambda>tri. 3 \<le> length (exterior tri)) ts"
  shows "well_formed (top_fragment ts z 0)"
proof -
  have len: "length (mesh_x (top_fragment ts z 0)) = 3 * length ts"
    using assms by (rule top_fragment_length_x)
  have ok: "index_ok (top_fragment ts z 0) = (\<lambda>v. 0 \<le> v \<and> v < int (3 * length ts))"
    by (rule ext) (simp add: index_ok_def len)
  have "list_all (index_ok (top_fragment ts z 0)) (mesh_i (top_fragment ts z 0))"
    using top_indices_ok [of 0 "length ts"]
    unfolding ok by (simp add: top_fragment_def)
  moreover have "list_all (index_ok (top_fragment ts z 0)) (mesh_j (top_fragment ts z 0))"
    using top_indices_ok [of 1 "length ts"]
    unfolding ok by (simp add: top_fragment_def)
  moreover have "list_all (index_ok (top_fragment ts z 0)) (mesh_k (top_fragment ts z 0))"
    using top_indices_ok [of 2 "length ts"]
    unfolding ok by (simp add: top_fragment_def)
  ultimately show ?thesis
    using len top_fragment_lengths [of ts z 0] by (simp add: well_formed_def)
qed

section \<open>Concatenation of fragments\<close>

lemma shift_wall_fragment:
  "shift_fragment d (wall_fragment es z off) = wall_fragment es z (off + d)"
  by (simp add: shift_fragment_def wall_fragment_def map_concat comp_def add.assoc add.commute
        add.left_commute)

lemma shift_top_fragment:
  "shift_fragment d (top_fragment ts z off) = top_fragment ts z (off + d)"
  by (simp add: shift_fragment_def top_fragment_def comp_def add.assoc add.commute
        add.left_commute)

lemma append_wall_fragment:
  "append_fragment (wall_fragment es1 z 0) (wall_fragment es2 z 0) =
     wall_fragment (es1 @ es2) z 0"
  by (simp add: append_fragment_def shift_wall_fragment wall_fragment_append
        wall_fragment_lengths)

lemma append_top_fragment:
  "list_all (\<lambda>tri. 3 \<le> length (exterior tri)) ts1 \<Longrightarrow>
     append_fragment (top_fragment ts1 z 0) (top_fragment ts2 z 0) =
       top_fragment (ts1 @ ts2) z 0"
  by (simp add: append_fragment_def shift_top_fragment top_fragment_append
        top_fragment_length_x)

lemma foldl_append_wall:
  "foldl append_fragment (wall_fragment es z 0) (map (\<lambda>p. wall_fragment (wall_edges p) z 0) ps) =
     wall_fragment (es @ concat (map wall_edges ps)) z 0"
  by (induction ps arbitrary: es) (simp_all add: append_wall_fragment)

lemma foldl_append_top:
  "list_all (\<lambda>tri. 3 \<le> length (exterior tri)) ts \<Longrightarrow>
   list_all (\<lambda>tri. 3 \<le> length (exterior tri)) (concat (map tr ps)) \<Longrightarrow>
     foldl append_fragment (top_fragment ts z 0) (map (\<lambda>p. top_fragment (tr p) z 0) ps) =
       top_fragment (ts @ concat (map tr ps)) z 0"
  by (induction ps arbitrary: ts) (simp_all add: append_top_fragment)

lemma concat_wall_fragments:
  "concat_fragments (map (\<lambda>p. wall_fragment (wall_edges p) z 0) ps) =
     wall_fragment (concat (map wall_edges ps)) z 0"
  using foldl_append_wall [of "[]" z ps]
  by (simp add: concat_fragments_def wall_fragment_Nil)

lemma concat_top_fragments:
  "list_all (\<lambda>tri. 3 \<le> length (exterior tri)) (concat (map tr ps)) \<Longrightarrow>
     concat_fragments (map (\<lambda>p. top_fragment (tr p) z 0) ps) =
       top_fragment (concat (map tr ps)) z 0"
  using foldl_append_top [of "[]" tr ps z]
  by (simp add: concat_fragments_def top_fragment_Nil)

lemma concat_fragments_snoc:
  "concat_fragments (fs @ [f]) = append_fragment (concat_fragments fs) f"
  by (simp add: concat_fragments_def)

lemma append_fragment_fields:
  "mesh_x (append_fragment a b) = mesh_x a @ mesh_x b"
  "mesh_i (append_fragment a b) = mesh_i a @ map (\<lambda>v. v + int (length (mesh_x a))) (mesh_i b)"
  "mesh_j (append_fragment a b) = mesh_j a @ map (\<lambda>v. v + int (length (mesh_x a))) (mesh_j b)"
  "mesh_k (append_fragment a b) = mesh_k a @ map (\<lambda>v. v + int (length (mesh_x a))) (mesh_k b)"
  by (simp_all add: append_fragment_def frag_append_def shift_fragment_def)

lemma length_x_concat_fragments:
  "length (mesh_x (concat_fragments fs)) = block_start fs (length fs)"
proof (induction fs rule: rev_induct)
  case Nil
  then show ?case by (simp add: concat_fragments_def empty_fragment_def block_start_def)
next
  case (snoc f fs)
  then show ?case
    by (simp add: concat_fragments_snoc append_fragment_fields block_start_def)
qed

lemma length_i_concat_fragments:
  "length (mesh_i (concat_fragments fs)) = sum_list (map (\<lambda>f. length (mesh_i f)) fs)"
proof (induction fs rule: rev_induct)
  case Nil
  then show ?case by (simp add: concat_fragments_def empty_fragment_def)
next
  case (snoc f fs)
  then show ?case
    by (simp add: concat_fragments_snoc append_fragment_fields)
qed

lemma length_jk_concat_fragments:
  "list_all well_formed fs \<Longrightarrow>
     length (mesh_j (concat_fragments fs)) = length (mesh_i (concat_fragments fs)) \<and>
     length (mesh_k (concat_fragments fs)) = length (mesh_i (concat_fragments fs))"
proof (induction fs rule: rev_induct)
  case Nil
  then show ?case by (simp add: concat_fragments_def empty_fragment_def)
next
  case (snoc f fs)
  then show ?case
    by (simp add: concat_fragments_snoc append_fragment_fields well_formed_def)
qed

lemma block_start_snoc:
  "n \<le> length fs \<Longrightarrow> block_start (fs @ [f]) n = block_start fs n"
  by (simp add: block_start_def)

lemma block_start_snoc_end:
  "block_start (fs @ [f]) (Suc (length fs)) = block_start fs (length fs) + length (mesh_x f)"
  by (simp add: block_start_def)

lemma tri_in_block_old:
  assumes "tri_in_block a lo hi t" and "t < length (mesh_i a)"
    and "length (mesh_j a) = length (mesh_i a)" and "length (mesh_k a) = length (mesh_i a)"
  shows "tri_in_block (append_fragment a b) lo hi t"
  using assms by (simp add: tri_in_block_def append_fragment_fields nth_append)

lemma tri_in_block_new:
  assumes "well_formed b" and "length (mesh_i a) \<le> t"
    and "t < length (mesh_i a) + length (mesh_i b)"
    and "length (mesh_j a) = length (mesh_i a)" and "length (mesh_k a) = length (mesh_i a)"
  shows "tri_in_block (append_fragment a b) (length (mesh_x a))
           (length (mesh_x a) + length (mesh_x b)) t"
proof -
  let ?s = "t - length (mesh_i a)"
  have s: "?s < length (mesh_i b)" "?s < length (mesh_j b)" "?s < length (mesh_k b)"
    using assms(1,2,3) by (simp_all add: well_formed_def)
  have "index_ok b (mesh_i b ! ?s)" "index_ok b (mesh_j b ! ?s)" "index_ok b (mesh_k b ! ?s)"
    using assms(1) s by (simp_all add: well_formed_def list_all_length)
  then show ?thesis
    using assms(2,4,5) s
    by (simp add: tri_in_block_def append_fragment_fields nth_append index_ok_def)
qed

lemma no_cross_concat_fragments_aux:
  assumes "list_all well_formed fs" and "t < length (mesh_i (concat_fragments fs))"
  shows "\<exists>n<length fs.
           tri_in_block (concat_fragments fs) (block_start fs n) (block_start fs (Suc n)) t"
  using assms
proof (induction fs arbitrary: t rule: rev_induct)
  case Nil
  then show ?case by (simp add: concat_fragments_def empty_fragment_def)
next
  case (snoc f fs)
  let ?a = "concat_fragments fs"
  have wf: "list_all well_formed fs" and wff: "well_formed f"
    using snoc.prems(1) by simp_all
  have jk: "length (mesh_j ?a) = length (mesh_i ?a)" "length (mesh_k ?a) = length (mesh_i ?a)"
    using length_jk_concat_fragments [OF wf] by simp_all
  show ?case
  proof (cases "t < length (mesh_i ?a)")
    case True
    then obtain n where n: "n < length fs"
      and blk: "tri_in_block ?a (block_start fs n) (block_start fs (Suc n)) t"
      using snoc.IH [OF wf] by blast
    have "tri_in_block (append_fragment ?a f) (block_start fs n) (block_start fs (Suc n)) t"
      using blk True jk by (rule tri_in_block_old)
    then have "tri_in_block (concat_fragments (fs @ [f])) (block_start (fs @ [f]) n)
        (block_start (fs @ [f]) (Suc n)) t"
      using n by (simp add: concat_fragments_snoc block_start_snoc)
    then show ?thesis
      using n by (intro exI [of _ n]) simp
  next
    case False
    then have lo: "length (mesh_i ?a) \<le> t" by simp
    have hi: "t < length (mesh_i ?a) + length (mesh_i f)"
      using snoc.prems(2) by (simp add: concat_fragments_snoc append_fragment_fields)
    have "tri_in_block (append_fragment ?a f) (length (mesh_x ?a))
        (length (mesh_x ?a) + length (mesh_x f)) t"
      using wff lo hi jk by (rule tri_in_block_new)
    then have "tri_in_block (concat_fragments (fs @ [f])) (block_start (fs @ [f]) (length fs))
        (block_start (fs @ [f]) (Suc (length fs))) t"
      by (simp add: concat_fragments_snoc block_start_snoc block_start_snoc_end
            length_x_concat_fragments)
    then show ?thesis
      by (intro exI [of _ "length fs"]) simp
  qed
qed

lemma no_cross_concat_fragments:
  assumes "list_all well_formed fs"
  shows "no_cross_triangles fs (concat_fragments fs)"
proof -
  have "\<exists>n\<in>set [0..<length fs].
      tri_in_block (concat_fragments fs) (block_start fs n) (block_start fs (Suc n)) t"
    if "t < length (mesh_i (concat_fragments fs))" for t
    using no_cross_concat_fragments_aux [OF assms that] by auto
  then show ?thesis
    by (simp add: no_cross_triangles_def list_all_iff list_ex_iff)
qed

section \<open>The claims\<close>

text \<open>
  \<^bold>\<open>C1.\<close> For a two-dimensional geometry \<open>polygon_side_walls\<close> returns a fragment with
  \<open>4 * N\<close> entries in each coordinate list and \<open>2 * N\<close> triangles, where \<open>N\<close> is the sum,
  over the constituent polygons, of the length \<open>n\<close> of the boundary after the closing
  duplicate is stripped; a single polygon is the sum of one term. When the stripped
  boundaries have no repeated vertex, \<open>n\<close> is the number of distinct vertices.
\<close>

theorem walls_counts:
  assumes "geom_2d g"
  shows "\<exists>f. polygon_side_walls g z_top = Inr f \<and>
           length (mesh_x f) = 4 * edge_count g \<and>
           length (mesh_y f) = 4 * edge_count g \<and>
           length (mesh_z f) = 4 * edge_count g \<and>
           length (mesh_i f) = 2 * edge_count g \<and>
           length (mesh_j f) = 2 * edge_count g \<and>
           length (mesh_k f) = 2 * edge_count g \<and>
           edge_count g = sum_list (map (\<lambda>p. length (strip_closing (exterior p))) (polys_of g)) \<and>
           (list_all (\<lambda>p. distinct (strip_closing (exterior p))) (polys_of g) \<longrightarrow>
              edge_count g =
                sum_list (map (\<lambda>p. card (set (strip_closing (exterior p)))) (polys_of g)))"
proof -
  have "polygon_side_walls g z_top = Inr (wall_fragment (all_wall_edges g) z_top 0)"
    using assms by (simp add: polygon_side_walls_eq)
  moreover have "edge_count g =
      sum_list (map (\<lambda>p. length (strip_closing (exterior p))) (polys_of g))"
    by (simp add: edge_count_def edge_base_def)
  moreover have "list_all (\<lambda>p. distinct (strip_closing (exterior p))) (polys_of g) \<longrightarrow>
      edge_count g = sum_list (map (\<lambda>p. card (set (strip_closing (exterior p)))) (polys_of g))"
    by (simp add: edge_count_def edge_count_distinct)
  ultimately show ?thesis
    by (simp add: wall_fragment_lengths length_all_wall_edges)
qed

theorem walls_counts_witness:
  "geom_2d (Polygon unit_square) \<and>
   (\<exists>f. polygon_side_walls (Polygon unit_square) (Fin 5) = Inr f \<and>
        length (mesh_x f) = 16 \<and> length (mesh_y f) = 16 \<and> length (mesh_z f) = 16 \<and>
        length (mesh_i f) = 8 \<and> length (mesh_j f) = 8 \<and> length (mesh_k f) = 8)"
proof -
  have h: "geom_2d (Polygon unit_square)"
    by (rule geom_2d_squares)
  have n: "edge_count (Polygon unit_square) = 4"
    by (simp add: edge_count_def edge_base_def strip_unit_square)
  from walls_counts [OF h, of "Fin 5"] n h show ?thesis
    by auto
qed

text \<open>
  \<^bold>\<open>C5.\<close> Every z-coordinate of the fragment returned by \<open>polygon_to_3d_top\<close> is the
  given \<open>z_top\<close>, whatever its value (zero and negative heights included): the z list
  is \<open>z_top\<close> repeated three times per triangle.
\<close>

theorem top_height:
  "mesh_z (polygon_to_3d_top triangulate g z_top) =
     replicate (3 * length (concat (map triangulate (polys_of g)))) z_top"
  by (simp add: polygon_to_3d_top_eq all_triangles_def top_fragment_def concat_const_replicate)

text \<open>
  \<^bold>\<open>C2.\<close> Take the edge \<open>idx\<close> of the \<open>k\<close>-th constituent polygon, from \<open>(x1, y1)\<close> to
  \<open>(x2, y2)\<close>, and let \<open>e\<close> be its number among all edges walked so far, so that the
  vertex offset is \<open>4 * e\<close> when the edge is reached. The returned fragment holds, from
  position \<open>4 * e\<close> on, the vertices top1, top2, bot1, bot2 in this order, and its triangles
  \<open>2 * e\<close> and \<open>2 * e + 1\<close> are \<open>(offset + 0, offset + 1, offset + 2)\<close> and
  \<open>(offset + 1, offset + 3, offset + 2)\<close>. The loop body itself, run on any lists and any
  offset, appends exactly these four vertices and two triangles and raises the offset
  by four.
\<close>

theorem walls_edge_layout:
  assumes "geom_2d g"
    and "k < length (polys_of g)"
    and "boundary = strip_closing (exterior (polys_of g ! k))"
    and "idx < length boundary"
    and "unpack2 (boundary ! idx) = Inr (x1, y1)"
    and "unpack2 (boundary ! ((idx + 1) mod length boundary)) = Inr (x2, y2)"
    and "e = edge_base (polys_of g) k + idx"
    and "vertex_offset = 4 * int e"
  shows "(\<forall>m off. wall_edge boundary z_top (m, off) idx =
            Inr (m\<lparr>mesh_x := mesh_x m @ [x1, x2, x1, x2],
                   mesh_y := mesh_y m @ [y1, y2, y1, y2],
                   mesh_z := mesh_z m @ [z_top, z_top, Fin 0, Fin 0],
                   mesh_i := mesh_i m @ [off + 0, off + 1],
                   mesh_j := mesh_j m @ [off + 1, off + 3],
                   mesh_k := mesh_k m @ [off + 2, off + 2]\<rparr>,
                 off + 4)) \<and>
         (\<exists>f. polygon_side_walls g z_top = Inr f \<and>
           4 * e + 3 < length (mesh_x f) \<and> 2 * e + 1 < length (mesh_i f) \<and>
           (mesh_x f ! (4 * e), mesh_y f ! (4 * e), mesh_z f ! (4 * e)) = (x1, y1, z_top) \<and>
           (mesh_x f ! (4 * e + 1), mesh_y f ! (4 * e + 1), mesh_z f ! (4 * e + 1)) =
             (x2, y2, z_top) \<and>
           (mesh_x f ! (4 * e + 2), mesh_y f ! (4 * e + 2), mesh_z f ! (4 * e + 2)) =
             (x1, y1, Fin 0) \<and>
           (mesh_x f ! (4 * e + 3), mesh_y f ! (4 * e + 3), mesh_z f ! (4 * e + 3)) =
             (x2, y2, Fin 0) \<and>
           (mesh_i f ! (2 * e), mesh_j f ! (2 * e), mesh_k f ! (2 * e)) =
             (vertex_offset + 0, vertex_offset + 1, vertex_offset + 2) \<and>
           (mesh_i f ! (2 * e + 1), mesh_j f ! (2 * e + 1), mesh_k f ! (2 * e + 1)) =
             (vertex_offset + 1, vertex_offset + 3, vertex_offset + 2))"
proof -
  let ?E = "all_wall_edges g"
  have step: "wall_edge boundary z_top (m, off) idx =
      Inr (m\<lparr>mesh_x := mesh_x m @ [x1, x2, x1, x2],
             mesh_y := mesh_y m @ [y1, y2, y1, y2],
             mesh_z := mesh_z m @ [z_top, z_top, Fin 0, Fin 0],
             mesh_i := mesh_i m @ [off + 0, off + 1],
             mesh_j := mesh_j m @ [off + 1, off + 3],
             mesh_k := mesh_k m @ [off + 2, off + 2]\<rparr>,
           off + 4)" for m off
    using assms(5,6) by (simp add: wall_edge_def)
  have res: "polygon_side_walls g z_top = Inr (wall_fragment ?E z_top 0)"
    using assms(1) by (simp add: polygon_side_walls_eq)
  have e: "e < length ?E" and edge: "?E ! e = edge_at boundary idx"
    using all_wall_edges_nth [of k g idx] assms(2,3,4,7) by simp_all
  have p1: "coord0 (fst (?E ! e)) = x1" "coord1 (fst (?E ! e)) = y1"
    using assms(5) edge by (cases "boundary ! idx"; simp add: edge_at_def)+
  have p2: "coord0 (snd (?E ! e)) = x2" "coord1 (snd (?E ! e)) = y2"
    using assms(6) edge
    by (cases "boundary ! ((idx + 1) mod length boundary)"; simp add: edge_at_def)+
  have len: "4 * e + 3 < length (mesh_x (wall_fragment ?E z_top 0))"
    "2 * e + 1 < length (mesh_i (wall_fragment ?E z_top 0))"
    using e by (simp_all add: wall_fragment_lengths)
  have "\<exists>f. polygon_side_walls g z_top = Inr f \<and>
      4 * e + 3 < length (mesh_x f) \<and> 2 * e + 1 < length (mesh_i f) \<and>
      (mesh_x f ! (4 * e), mesh_y f ! (4 * e), mesh_z f ! (4 * e)) = (x1, y1, z_top) \<and>
      (mesh_x f ! (4 * e + 1), mesh_y f ! (4 * e + 1), mesh_z f ! (4 * e + 1)) =
        (x2, y2, z_top) \<and>
      (mesh_x f ! (4 * e + 2), mesh_y f ! (4 * e + 2), mesh_z f ! (4 * e + 2)) =
        (x1, y1, Fin 0) \<and>
      (mesh_x f ! (4 * e + 3), mesh_y f ! (4 * e + 3), mesh_z f ! (4 * e + 3)) =
        (x2, y2, Fin 0) \<and>
      (mesh_i f ! (2 * e), mesh_j f ! (2 * e), mesh_k f ! (2 * e)) =
        (vertex_offset + 0, vertex_offset + 1, vertex_offset + 2) \<and>
      (mesh_i f ! (2 * e + 1), mesh_j f ! (2 * e + 1), mesh_k f ! (2 * e + 1)) =
        (vertex_offset + 1, vertex_offset + 3, vertex_offset + 2)"
    using res len p1 p2 assms(8) wall_fragment_vertices [OF e] wall_fragment_triangles [OF e]
    by simp
  with step show ?thesis by blast
qed

lemma edge_base_squares: "edge_base [unit_square, far_square] (Suc 0) = 4"
  by (simp add: edge_base_def strip_unit_square)

theorem walls_edge_layout_witness:
  "geom_2d (MultiPolygon [unit_square, far_square]) \<and>
   1 < length (polys_of (MultiPolygon [unit_square, far_square])) \<and>
   3 < length (strip_closing (exterior (polys_of (MultiPolygon [unit_square, far_square]) ! 1))) \<and>
   unpack2 (strip_closing (exterior far_square) ! 3) = Inr (Fin 5, Fin 6) \<and>
   unpack2 (strip_closing (exterior far_square) ! ((3 + 1) mod 4)) = Inr (Fin 5, Fin 5) \<and>
   (\<exists>f. polygon_side_walls (MultiPolygon [unit_square, far_square]) (Fin 2) = Inr f \<and>
        31 < length (mesh_x f) \<and> 15 < length (mesh_i f) \<and>
        (mesh_x f ! 28, mesh_y f ! 28, mesh_z f ! 28) = (Fin 5, Fin 6, Fin 2) \<and>
        (mesh_x f ! 29, mesh_y f ! 29, mesh_z f ! 29) = (Fin 5, Fin 5, Fin 2) \<and>
        (mesh_x f ! 30, mesh_y f ! 30, mesh_z f ! 30) = (Fin 5, Fin 6, Fin 0) \<and>
        (mesh_x f ! 31, mesh_y f ! 31, mesh_z f ! 31) = (Fin 5, Fin 5, Fin 0) \<and>
        (mesh_i f ! 14, mesh_j f ! 14, mesh_k f ! 14) = (28, 29, 30) \<and>
        (mesh_i f ! 15, mesh_j f ! 15, mesh_k f ! 15) = (29, 31, 30))"
proof -
  let ?g = "MultiPolygon [unit_square, far_square]"
  let ?b = "strip_closing (exterior (polys_of ?g ! 1))"
  have b: "?b = [P2 (Fin 5) (Fin 5), P2 (Fin 6) (Fin 5), P2 (Fin 6) (Fin 6), P2 (Fin 5) (Fin 6)]"
    by (simp add: strip_far_square)
  have h1: "geom_2d ?g" by (rule geom_2d_squares)
  have h2: "1 < length (polys_of ?g)" by simp
  have h4: "3 < length ?b" by (simp add: strip_far_square)
  have h5: "unpack2 (?b ! 3) = Inr (Fin 5, Fin 6)" by (simp add: strip_far_square)
  have h6: "unpack2 (?b ! ((3 + 1) mod length ?b)) = Inr (Fin 5, Fin 5)"
    by (simp add: strip_far_square)
  have h7: "7 = edge_base (polys_of ?g) 1 + 3" by (simp add: edge_base_squares)
  have h8: "(28::int) = 4 * int 7" by simp
  from walls_edge_layout [OF h1 h2 refl h4 h5 h6 h7 h8, of "Fin 2"] h1 h2 h4 h5 h6
  show ?thesis by (simp add: strip_far_square)
qed

text \<open>
  \<^bold>\<open>C4.\<close> In the returned fragment the vertices top1 and bot1 of edge \<open>idx\<close> of a
  constituent polygon have the \<open>(x, y)\<close> of the vertices top2 and bot2 of its edge
  \<open>(idx - 1) mod n\<close>; for \<open>idx = 0\<close> that is the last edge, whose end is boundary
  vertex 0.
\<close>

theorem walls_closure:
  assumes "geom_2d g"
    and "k < length (polys_of g)"
    and "boundary = strip_closing (exterior (polys_of g ! k))"
    and "n = length boundary"
    and "idx < n"
    and "e = edge_base (polys_of g) k + idx"
    and "prev = edge_base (polys_of g) k + nat ((int idx - 1) mod int n)"
    and "final = edge_base (polys_of g) k + (n - 1)"
  shows "\<exists>f. polygon_side_walls g z_top = Inr f \<and>
           mesh_x f ! (4 * e) = mesh_x f ! (4 * prev + 1) \<and>
           mesh_y f ! (4 * e) = mesh_y f ! (4 * prev + 1) \<and>
           mesh_x f ! (4 * e + 2) = mesh_x f ! (4 * prev + 3) \<and>
           mesh_y f ! (4 * e + 2) = mesh_y f ! (4 * prev + 3) \<and>
           mesh_x f ! (4 * final + 1) = coord0 (boundary ! 0) \<and>
           mesh_y f ! (4 * final + 1) = coord1 (boundary ! 0) \<and>
           mesh_x f ! (4 * final + 3) = coord0 (boundary ! 0) \<and>
           mesh_y f ! (4 * final + 3) = coord1 (boundary ! 0)"
proof -
  let ?E = "all_wall_edges g"
  let ?p = "nat ((int idx - 1) mod int n)"
  have res: "polygon_side_walls g z_top = Inr (wall_fragment ?E z_top 0)"
    using assms(1) by (simp add: polygon_side_walls_eq)
  have pn: "?p < n" and wrap: "(?p + 1) mod n = idx"
    using prev_index [OF assms(5)] by simp_all
  have fn: "n - 1 < n" and fwrap: "(n - 1 + 1) mod n = 0"
    using assms(5) by simp_all
  have e: "e < length ?E" and edge: "?E ! e = edge_at boundary idx"
    using all_wall_edges_nth [of k g idx] assms(2,3,4,5,6) by simp_all
  have p: "prev < length ?E" and pedge: "?E ! prev = edge_at boundary ?p"
    using all_wall_edges_nth [of k g ?p] assms(2,3,4,7) pn by simp_all
  have f: "final < length ?E" and fedge: "?E ! final = edge_at boundary (n - 1)"
    using all_wall_edges_nth [of k g "n - 1"] assms(2,3,4,8) fn by simp_all
  have "snd (?E ! prev) = fst (?E ! e)"
    using edge pedge wrap assms(4) by (simp add: edge_at_def)
  moreover have "snd (?E ! final) = boundary ! 0"
    using fedge fwrap assms(4) by (simp add: edge_at_def)
  ultimately show ?thesis
    using res wall_fragment_vertices [OF e] wall_fragment_vertices [OF p]
      wall_fragment_vertices [OF f]
    by simp
qed

theorem walls_closure_witness:
  "geom_2d (MultiPolygon [unit_square, far_square]) \<and>
   1 < length (polys_of (MultiPolygon [unit_square, far_square])) \<and>
   0 < length (strip_closing (exterior (polys_of (MultiPolygon [unit_square, far_square]) ! 1))) \<and>
   (\<exists>f. polygon_side_walls (MultiPolygon [unit_square, far_square]) (Fin 2) = Inr f \<and>
        mesh_x f ! 16 = mesh_x f ! 29 \<and> mesh_y f ! 16 = mesh_y f ! 29 \<and>
        mesh_x f ! 18 = mesh_x f ! 31 \<and> mesh_y f ! 18 = mesh_y f ! 31 \<and>
        mesh_x f ! 29 = Fin 5 \<and> mesh_y f ! 29 = Fin 5 \<and>
        mesh_x f ! 31 = Fin 5 \<and> mesh_y f ! 31 = Fin 5)"
proof -
  let ?g = "MultiPolygon [unit_square, far_square]"
  let ?b = "strip_closing (exterior (polys_of ?g ! 1))"
  have h1: "geom_2d ?g" by (rule geom_2d_squares)
  have h2: "1 < length (polys_of ?g)" by simp
  have h4: "4 = length ?b" by (simp add: strip_far_square)
  have h5: "(0::nat) < 4" by simp
  have h6: "4 = edge_base (polys_of ?g) 1 + 0" by (simp add: edge_base_squares)
  have h7: "7 = edge_base (polys_of ?g) 1 + nat ((int 0 - 1) mod int 4)"
    by (simp add: edge_base_squares)
  have h8: "7 = edge_base (polys_of ?g) 1 + (4 - 1)" by (simp add: edge_base_squares)
  have h3: "0 < length ?b" by (simp add: strip_far_square)
  from walls_closure [OF h1 h2 refl h4 h5 h6 h7 h8, of "Fin 2"] h1 h2 h3
  show ?thesis by (simp add: strip_far_square)
qed

text \<open>
  \<^bold>\<open>C9.\<close> When the exterior sequence of a polygon of 2-tuples has at least two entries
  and its first entry equals its last (Python's \<open>==\<close>), the closing entry is dropped
  before the edges are walked: there is one edge per remaining entry, the start points
  of the edges are these entries in order, each once, and the end points are the same
  entries rotated by one.
\<close>

theorem walls_strip_closing_duplicate:
  assumes "boundary = exterior poly"
    and "length boundary > 1"
    and "point_eq (boundary ! 0) (last boundary)"
    and "list_all is_2d boundary"
    and "n = length boundary - 1"
  shows "strip_closing boundary = butlast boundary \<and>
         (\<exists>f. polygon_side_walls (Polygon poly) z_top = Inr f \<and>
              length (mesh_x f) = 4 * n \<and> length (mesh_i f) = 2 * n \<and>
              map (\<lambda>idx. (mesh_x f ! (4 * idx), mesh_y f ! (4 * idx))) [0..<n] =
                map (\<lambda>p. (coord0 p, coord1 p)) (butlast boundary) \<and>
              map (\<lambda>idx. (mesh_x f ! (4 * idx + 1), mesh_y f ! (4 * idx + 1))) [0..<n] =
                map (\<lambda>p. (coord0 p, coord1 p)) (rotate1 (butlast boundary)))"
proof -
  let ?b = "butlast boundary"
  let ?E = "all_wall_edges (Polygon poly)"
  let ?f = "wall_fragment ?E z_top 0"
  have strip: "strip_closing boundary = ?b"
    using assms(2,3) by (simp add: strip_closing_def)
  have n: "length ?b = n"
    using assms(5) by simp
  have E: "?E = map (edge_at ?b) [0..<n]"
    using assms(1) strip n by (simp add: all_wall_edges_def wall_edges_def Let_def)
  have lenE: "length ?E = n"
    by (simp add: E)
  have res: "polygon_side_walls (Polygon poly) z_top = Inr ?f"
    using assms(1,4) by (simp add: polygon_side_walls_eq geom_2d_def)
  have starts: "map (\<lambda>idx. (mesh_x ?f ! (4 * idx), mesh_y ?f ! (4 * idx))) [0..<n] =
      map (\<lambda>p. (coord0 p, coord1 p)) ?b"
  proof (rule nth_equalityI)
    show "length (map (\<lambda>idx. (mesh_x ?f ! (4 * idx), mesh_y ?f ! (4 * idx))) [0..<n]) =
        length (map (\<lambda>p. (coord0 p, coord1 p)) ?b)"
      using n by simp
  next
    fix i
    assume "i < length (map (\<lambda>idx. (mesh_x ?f ! (4 * idx), mesh_y ?f ! (4 * idx))) [0..<n])"
    then have i: "i < n" by simp
    then have e: "i < length ?E" by (simp add: lenE)
    have "?E ! i = edge_at ?b i"
      using i by (simp add: E)
    then show "map (\<lambda>idx. (mesh_x ?f ! (4 * idx), mesh_y ?f ! (4 * idx))) [0..<n] ! i =
        map (\<lambda>p. (coord0 p, coord1 p)) ?b ! i"
      using i n wall_fragment_vertices [OF e, of z_top 0] by (simp add: edge_at_def)
  qed
  have ends: "map (\<lambda>idx. (mesh_x ?f ! (4 * idx + 1), mesh_y ?f ! (4 * idx + 1))) [0..<n] =
      map (\<lambda>p. (coord0 p, coord1 p)) (rotate1 ?b)"
  proof (rule nth_equalityI)
    show "length (map (\<lambda>idx. (mesh_x ?f ! (4 * idx + 1), mesh_y ?f ! (4 * idx + 1))) [0..<n]) =
        length (map (\<lambda>p. (coord0 p, coord1 p)) (rotate1 ?b))"
      using n by simp
  next
    fix i
    assume "i < length (map (\<lambda>idx. (mesh_x ?f ! (4 * idx + 1), mesh_y ?f ! (4 * idx + 1))) [0..<n])"
    then have i: "i < n" by simp
    then have e: "i < length ?E" by (simp add: lenE)
    have "?E ! i = edge_at ?b i"
      using i by (simp add: E)
    moreover have "rotate1 ?b ! i = ?b ! ((i + 1) mod n)"
      using i n by (simp add: nth_rotate1)
    ultimately show
      "map (\<lambda>idx. (mesh_x ?f ! (4 * idx + 1), mesh_y ?f ! (4 * idx + 1))) [0..<n] ! i =
        map (\<lambda>p. (coord0 p, coord1 p)) (rotate1 ?b) ! i"
      using i n wall_fragment_vertices [OF e, of z_top 0] by (simp add: edge_at_def)
  qed
  show ?thesis
    using strip res starts ends lenE by (simp add: wall_fragment_lengths)
qed

theorem walls_strip_closing_duplicate_witness:
  "length (exterior unit_square) > 1 \<and>
   point_eq (exterior unit_square ! 0) (last (exterior unit_square)) \<and>
   list_all is_2d (exterior unit_square) \<and>
   strip_closing (exterior unit_square) =
     [P2 (Fin 0) (Fin 0), P2 (Fin 1) (Fin 0), P2 (Fin 1) (Fin 1), P2 (Fin 0) (Fin 1)] \<and>
   (\<exists>f. polygon_side_walls (Polygon unit_square) (Fin 5) = Inr f \<and>
        length (mesh_x f) = 16 \<and> length (mesh_i f) = 8 \<and>
        [(mesh_x f ! 0, mesh_y f ! 0), (mesh_x f ! 4, mesh_y f ! 4),
         (mesh_x f ! 8, mesh_y f ! 8), (mesh_x f ! 12, mesh_y f ! 12)] =
          [(Fin 0, Fin 0), (Fin 1, Fin 0), (Fin 1, Fin 1), (Fin 0, Fin 1)] \<and>
        [(mesh_x f ! 1, mesh_y f ! 1), (mesh_x f ! 5, mesh_y f ! 5),
         (mesh_x f ! 9, mesh_y f ! 9), (mesh_x f ! 13, mesh_y f ! 13)] =
          [(Fin 1, Fin 0), (Fin 1, Fin 1), (Fin 0, Fin 1), (Fin 0, Fin 0)])"
proof -
  let ?b = "exterior unit_square"
  have h2: "length ?b > 1" by (simp add: unit_square_def)
  have h3: "point_eq (?b ! 0) (last ?b)" by (simp add: unit_square_def float_eq_def)
  have h4: "list_all is_2d ?b" by (simp add: unit_square_def)
  have h5: "4 = length ?b - 1" by (simp add: unit_square_def)
  have upt: "[0..<4] = [0, 1, 2, 3]" by (simp add: upt_rec)
  from walls_strip_closing_duplicate [OF refl h2 h3 h4 h5, of "Fin 5"] h2 h3 h4
  show ?thesis by (simp add: upt) (simp add: unit_square_def)
qed

text \<open>
  \<^bold>\<open>C10.\<close> Every fragment returned by \<open>polygon_side_walls\<close> is well-formed (equal
  lengths of \<open>x\<close>, \<open>y\<close>, \<open>z\<close>, equal lengths of \<open>i\<close>, \<open>j\<close>, \<open>k\<close>, every index a position
  of the coordinate lists) with \<open>len(x) = 2 * len(i)\<close>. The fragment returned by
  \<open>polygon_to_3d_top\<close> always has \<open>len(x) = len(y)\<close>, \<open>len(z) = 3 * len(i)\<close> and
  \<open>len(i) = len(j) = len(k)\<close>; it is well-formed with \<open>len(x) = 3 * len(i)\<close> when every
  triangle handed back by the triangulation has at least three coordinates, as the
  library's triangles (closed rings of four) have.
\<close>

theorem fragments_well_formed:
  "(\<forall>f. polygon_side_walls g z_top = Inr f \<longrightarrow>
        well_formed f \<and> length (mesh_x f) = 2 * length (mesh_i f)) \<and>
   length (mesh_x (polygon_to_3d_top triangulate g z_top)) =
     length (mesh_y (polygon_to_3d_top triangulate g z_top)) \<and>
   length (mesh_z (polygon_to_3d_top triangulate g z_top)) =
     3 * length (mesh_i (polygon_to_3d_top triangulate g z_top)) \<and>
   length (mesh_i (polygon_to_3d_top triangulate g z_top)) =
     length (mesh_j (polygon_to_3d_top triangulate g z_top)) \<and>
   length (mesh_j (polygon_to_3d_top triangulate g z_top)) =
     length (mesh_k (polygon_to_3d_top triangulate g z_top)) \<and>
   (proper_triangles triangulate g \<longrightarrow>
      well_formed (polygon_to_3d_top triangulate g z_top) \<and>
      length (mesh_x (polygon_to_3d_top triangulate g z_top)) =
        3 * length (mesh_i (polygon_to_3d_top triangulate g z_top)))"
proof -
  have walls: "well_formed f \<and> length (mesh_x f) = 2 * length (mesh_i f)"
    if "polygon_side_walls g z_top = Inr f" for f
  proof -
    from that have "f = wall_fragment (all_wall_edges g) z_top 0"
      by (simp add: polygon_side_walls_eq split: if_splits)
    then show ?thesis
      by (simp add: well_formed_wall_fragment wall_fragment_lengths)
  qed
  have top: "well_formed (polygon_to_3d_top triangulate g z_top) \<and>
      length (mesh_x (polygon_to_3d_top triangulate g z_top)) =
        3 * length (mesh_i (polygon_to_3d_top triangulate g z_top))"
    if "proper_triangles triangulate g"
    using that
    by (simp add: polygon_to_3d_top_eq proper_triangles_def well_formed_top_fragment
          top_fragment_length_x top_fragment_lengths(3))
  show ?thesis
    using walls top top_fragment_lengths [of "all_triangles triangulate g" z_top 0]
    by (simp add: polygon_to_3d_top_eq)
qed

theorem fragments_well_formed_witness:
  "proper_triangles diagonal_split (Polygon unit_square) \<and>
   well_formed (polygon_to_3d_top diagonal_split (Polygon unit_square) (Fin 5)) \<and>
   length (mesh_x (polygon_to_3d_top diagonal_split (Polygon unit_square) (Fin 5))) = 6 \<and>
   length (mesh_i (polygon_to_3d_top diagonal_split (Polygon unit_square) (Fin 5))) = 2 \<and>
   (\<exists>f. polygon_side_walls (Polygon unit_square) (Fin 5) = Inr f \<and>
        well_formed f \<and> length (mesh_x f) = 16 \<and> length (mesh_i f) = 8)"
proof -
  let ?g = "Polygon unit_square"
  have h: "proper_triangles diagonal_split ?g"
    by (simp add: proper_triangles_def all_triangles_def diagonal_split_def unit_square_def)
  have ni: "length (mesh_i (polygon_to_3d_top diagonal_split ?g (Fin 5))) = 2"
    by (simp add: polygon_to_3d_top_eq top_fragment_lengths all_triangles_def
          diagonal_split_def unit_square_def)
  let ?f = "wall_fragment (all_wall_edges ?g) (Fin 5) 0"
  have f: "polygon_side_walls ?g (Fin 5) = Inr ?f"
    using geom_2d_squares(1) by (simp add: polygon_side_walls_eq)
  have nf: "length (mesh_i ?f) = 8"
    by (simp add: wall_fragment_lengths length_all_wall_edges edge_count_def edge_base_def
          strip_unit_square)
  from fragments_well_formed [of ?g "Fin 5" diagonal_split] h ni f nf
  show ?thesis by auto
qed

text \<open>
  \<^bold>\<open>C6.\<close> The fragment of a MultiPolygon is the concatenation of the fragments of its
  constituent polygons, the indices of each shifted by the number of vertices before
  it; so its triangle count is the sum of theirs, and the three indices of every
  triangle lie in the vertex block of one constituent. For the walls this holds for
  every geometry of 2-tuples (the inputs on which the function returns); for the top
  surface, when the triangulation returns triangles of at least three coordinates, so
  that each triangle owns three vertices.
\<close>

theorem multipolygon_concatenation:
  "(geom_2d (MultiPolygon ps) \<longrightarrow>
      (\<exists>fs. list_all2 (\<lambda>p f. polygon_side_walls (Polygon p) z_top = Inr f) ps fs \<and>
            polygon_side_walls (MultiPolygon ps) z_top = Inr (concat_fragments fs) \<and>
            length (mesh_i (concat_fragments fs)) = sum_list (map (\<lambda>f. length (mesh_i f)) fs) \<and>
            no_cross_triangles fs (concat_fragments fs))) \<and>
   (proper_triangles triangulate (MultiPolygon ps) \<longrightarrow>
      (\<exists>fs. fs = map (\<lambda>p. polygon_to_3d_top triangulate (Polygon p) z_top) ps \<and>
            polygon_to_3d_top triangulate (MultiPolygon ps) z_top = concat_fragments fs \<and>
            length (mesh_i (concat_fragments fs)) = sum_list (map (\<lambda>f. length (mesh_i f)) fs) \<and>
            no_cross_triangles fs (concat_fragments fs)))"
proof (intro conjI impI)
  assume g: "geom_2d (MultiPolygon ps)"
  let ?fs = "map (\<lambda>p. wall_fragment (wall_edges p) z_top 0) ps"
  have single: "polygon_side_walls (Polygon p) z_top = Inr (wall_fragment (wall_edges p) z_top 0)"
    if "p \<in> set ps" for p
    using g that by (simp add: polygon_side_walls_eq geom_2d_def all_wall_edges_def list_all_iff)
  have parts: "list_all2 (\<lambda>p f. polygon_side_walls (Polygon p) z_top = Inr f) ps ?fs"
    using single by (simp add: list_all2_conv_all_nth)
  have whole: "polygon_side_walls (MultiPolygon ps) z_top = Inr (concat_fragments ?fs)"
    using g by (simp add: polygon_side_walls_eq all_wall_edges_def concat_wall_fragments)
  have "list_all well_formed ?fs"
    by (simp add: list_all_iff well_formed_wall_fragment)
  then have "no_cross_triangles ?fs (concat_fragments ?fs)"
    by (rule no_cross_concat_fragments)
  with parts whole length_i_concat_fragments [of ?fs]
  show "\<exists>fs. list_all2 (\<lambda>p f. polygon_side_walls (Polygon p) z_top = Inr f) ps fs \<and>
      polygon_side_walls (MultiPolygon ps) z_top = Inr (concat_fragments fs) \<and>
      length (mesh_i (concat_fragments fs)) = sum_list (map (\<lambda>f. length (mesh_i f)) fs) \<and>
      no_cross_triangles fs (concat_fragments fs)"
    by blast
next
  assume t: "proper_triangles triangulate (MultiPolygon ps)"
  let ?fs = "map (\<lambda>p. polygon_to_3d_top triangulate (Polygon p) z_top) ps"
  have all3: "list_all (\<lambda>tri. 3 \<le> length (exterior tri)) (concat (map triangulate ps))"
    using t by (simp add: proper_triangles_def all_triangles_def)
  have fs: "?fs = map (\<lambda>p. top_fragment (triangulate p) z_top 0) ps"
    by (simp add: polygon_to_3d_top_eq all_triangles_def)
  have whole: "polygon_to_3d_top triangulate (MultiPolygon ps) z_top = concat_fragments ?fs"
    using all3 by (simp add: fs polygon_to_3d_top_eq all_triangles_def concat_top_fragments)
  have "list_all well_formed ?fs"
    using all3 unfolding fs by (auto simp: list_all_iff intro!: well_formed_top_fragment)
  then have "no_cross_triangles ?fs (concat_fragments ?fs)"
    by (rule no_cross_concat_fragments)
  with whole length_i_concat_fragments [of ?fs]
  show "\<exists>fs. fs = map (\<lambda>p. polygon_to_3d_top triangulate (Polygon p) z_top) ps \<and>
      polygon_to_3d_top triangulate (MultiPolygon ps) z_top = concat_fragments fs \<and>
      length (mesh_i (concat_fragments fs)) = sum_list (map (\<lambda>f. length (mesh_i f)) fs) \<and>
      no_cross_triangles fs (concat_fragments fs)"
    by blast
qed

theorem multipolygon_concatenation_witness:
  "geom_2d (MultiPolygon [unit_square, far_square]) \<and>
   proper_triangles diagonal_split (MultiPolygon [unit_square, far_square]) \<and>
   (\<exists>fs. list_all2 (\<lambda>p f. polygon_side_walls (Polygon p) (Fin 2) = Inr f)
           [unit_square, far_square] fs \<and>
         polygon_side_walls (MultiPolygon [unit_square, far_square]) (Fin 2) =
           Inr (concat_fragments fs) \<and>
         length (mesh_i (concat_fragments fs)) = sum_list (map (\<lambda>f. length (mesh_i f)) fs) \<and>
         no_cross_triangles fs (concat_fragments fs)) \<and>
   (\<exists>fs. fs = map (\<lambda>p. polygon_to_3d_top diagonal_split (Polygon p) (Fin 2))
                [unit_square, far_square] \<and>
         polygon_to_3d_top diagonal_split (MultiPolygon [unit_square, far_square]) (Fin 2) =
           concat_fragments fs \<and>
         length (mesh_i (concat_fragments fs)) = sum_list (map (\<lambda>f. length (mesh_i f)) fs) \<and>
         no_cross_triangles fs (concat_fragments fs)) \<and>
   length (mesh_i (polygon_to_3d_top diagonal_split (MultiPolygon [unit_square, far_square])
     (Fin 2))) = 4"
proof -
  have h1: "geom_2d (MultiPolygon [unit_square, far_square])"
    by (rule geom_2d_squares)
  have h2: "proper_triangles diagonal_split (MultiPolygon [unit_square, far_square])"
    by (simp add: proper_triangles_def all_triangles_def diagonal_split_def unit_square_def
          far_square_def)
  have n: "length (mesh_i (polygon_to_3d_top diagonal_split
      (MultiPolygon [unit_square, far_square]) (Fin 2))) = 4"
    by (simp add: polygon_to_3d_top_eq top_fragment_lengths all_triangles_def
          diagonal_split_def unit_square_def far_square_def)
  from multipolygon_concatenation [of "[unit_square, far_square]" "Fin 2" diagonal_split]
    h1 h2 n
  show ?thesis by blast
qed

lemma upt_3: "[0..<3] = [0, 1, 2]"
  by (simp add: upt_rec)

lemma upt_4: "[0..<4] = [0, 1, 2, 3]"
  by (simp add: upt_rec)

lemma strip_two_point_polygon:
  "strip_closing (exterior two_point_polygon) =
     [P2 (Fin 0) (Fin 0), P2 (Fin 1) (Fin 1), P2 (Fin 1) (Fin 1)]"
  by (simp add: two_point_polygon_def strip_closing_def float_eq_def)

lemma concat_const_quad:
  "concat (map (\<lambda>e. [z, z, Fin 0, Fin 0]) es) = concat (replicate (length es) [z, z, Fin 0, Fin 0])"
  by (induction es) simp_all

text \<open>
  \<^bold>\<open>C3\<close>, as the code has it. \<open>polygon_side_walls\<close> does not validate the boundary. For
  a polygon of 2-tuples whose boundary has fewer than three distinct points after the
  closing duplicate is stripped it returns a fragment like for any other: \<open>4 * n\<close>
  vertices and \<open>2 * n\<close> triangles, \<open>n\<close> the length of the stripped boundary (the empty
  fragment when \<open>n = 0\<close>).
\<close>

theorem walls_degenerate_boundary:
  assumes "list_all is_2d (exterior poly)"
    and "card (set (strip_closing (exterior poly))) < 3"
    and "n = length (strip_closing (exterior poly))"
  shows "\<exists>f. polygon_side_walls (Polygon poly) z_top = Inr f \<and>
           length (mesh_x f) = 4 * n \<and> length (mesh_y f) = 4 * n \<and>
           length (mesh_z f) = 4 * n \<and> length (mesh_i f) = 2 * n \<and>
           length (mesh_j f) = 2 * n \<and> length (mesh_k f) = 2 * n \<and>
           (n = 0 \<longrightarrow> f = empty_fragment)"
proof -
  have "polygon_side_walls (Polygon poly) z_top =
      Inr (wall_fragment (all_wall_edges (Polygon poly)) z_top 0)"
    using assms(1) by (simp add: polygon_side_walls_eq geom_2d_def)
  moreover have "length (all_wall_edges (Polygon poly)) = n"
    using assms(3) by (simp add: all_wall_edges_def length_wall_edges)
  ultimately show ?thesis
    by (auto simp: wall_fragment_lengths wall_fragment_Nil)
qed

theorem walls_degenerate_boundary_witness:
  "list_all is_2d (exterior two_point_polygon) \<and>
   card (set (strip_closing (exterior two_point_polygon))) < 3 \<and>
   (\<exists>f. polygon_side_walls (Polygon two_point_polygon) (Fin 5) = Inr f \<and>
        length (mesh_x f) = 12 \<and> length (mesh_y f) = 12 \<and> length (mesh_z f) = 12 \<and>
        length (mesh_i f) = 6 \<and> length (mesh_j f) = 6 \<and> length (mesh_k f) = 6)"
proof -
  have h1: "list_all is_2d (exterior two_point_polygon)"
    by (simp add: two_point_polygon_def)
  have h2: "card (set (strip_closing (exterior two_point_polygon))) < 3"
    by (simp add: strip_two_point_polygon)
  have h3: "3 = length (strip_closing (exterior two_point_polygon))"
    by (simp add: strip_two_point_polygon)
  from walls_degenerate_boundary [OF h1 h2 h3, of "Fin 5"] h1 h2
  show ?thesis by auto
qed

text \<open>
  The claim \<^bold>\<open>C3\<close> as stated fails: a closed ring through two distinct points only is
  walked like any other boundary, and a fragment of three degenerate quads comes back.
\<close>

theorem walls_two_points_counterexample:
  "card (set (strip_closing (exterior two_point_polygon))) = 2 \<and>
   polygon_side_walls (Polygon two_point_polygon) (Fin 5) =
     Inr \<lparr>mesh_x = [Fin 0, Fin 1, Fin 0, Fin 1, Fin 1, Fin 1, Fin 1, Fin 1,
                     Fin 1, Fin 0, Fin 1, Fin 0],
          mesh_y = [Fin 0, Fin 1, Fin 0, Fin 1, Fin 1, Fin 1, Fin 1, Fin 1,
                    Fin 1, Fin 0, Fin 1, Fin 0],
          mesh_z = [Fin 5, Fin 5, Fin 0, Fin 0, Fin 5, Fin 5, Fin 0, Fin 0,
                    Fin 5, Fin 5, Fin 0, Fin 0],
          mesh_i = [0, 1, 4, 5, 8, 9],
          mesh_j = [1, 3, 5, 7, 9, 11],
          mesh_k = [2, 2, 6, 6, 10, 10]\<rparr>"
proof -
  have b: "strip_closing (exterior two_point_polygon) =
      [P2 (Fin 0) (Fin 0), P2 (Fin 1) (Fin 1), P2 (Fin 1) (Fin 1)]"
    by (simp add: two_point_polygon_def strip_closing_def float_eq_def)
  have "card (set (strip_closing (exterior two_point_polygon))) = 2"
    by (simp add: b)
  moreover have "polygon_side_walls (Polygon two_point_polygon) (Fin 5) =
     Inr \<lparr>mesh_x = [Fin 0, Fin 1, Fin 0, Fin 1, Fin 1, Fin 1, Fin 1, Fin 1,
                     Fin 1, Fin 0, Fin 1, Fin 0],
          mesh_y = [Fin 0, Fin 1, Fin 0, Fin 1, Fin 1, Fin 1, Fin 1, Fin 1,
                    Fin 1, Fin 0, Fin 1, Fin 0],
          mesh_z = [Fin 5, Fin 5, Fin 0, Fin 0, Fin 5, Fin 5, Fin 0, Fin 0,
                    Fin 5, Fin 5, Fin 0, Fin 0],
          mesh_i = [0, 1, 4, 5, 8, 9],
          mesh_j = [1, 3, 5, 7, 9, 11],
          mesh_k = [2, 2, 6, 6, 10, 10]\<rparr>"
    by (simp add: polygon_side_walls_def wall_poly_def b upt_3 wall_edge_def empty_fragment_def)
  ultimately show ?thesis by simp
qed

text \<open>
  \<^bold>\<open>C7\<close>, as the code has it. \<open>polygon_to_3d_top\<close> has no failure of its own and skips
  nothing: the fragment has one triangle for every triangle the triangulation returns,
  and it is the empty fragment when the triangulation returns none.
\<close>

theorem top_never_fails:
  "length (mesh_i (polygon_to_3d_top triangulate g z_top)) =
     length (concat (map triangulate (polys_of g))) \<and>
   (list_all (\<lambda>p. triangulate p = []) (polys_of g) \<longrightarrow>
      polygon_to_3d_top triangulate g z_top = empty_fragment)"
proof -
  have none: "concat (map triangulate ps) = []"
    if "list_all (\<lambda>p. triangulate p = []) ps" for ps
    using that by (induction ps) simp_all
  have "polygon_to_3d_top triangulate g z_top = empty_fragment"
    if "list_all (\<lambda>p. triangulate p = []) (polys_of g)"
    unfolding polygon_to_3d_top_eq all_triangles_def none [OF that] by (rule top_fragment_Nil)
  then show ?thesis
    by (simp add: polygon_to_3d_top_eq all_triangles_def top_fragment_lengths)
qed

theorem top_never_fails_witness:
  "list_all (\<lambda>p. no_triangles p = []) (polys_of (Polygon collinear_polygon)) \<and>
   length (mesh_i (polygon_to_3d_top no_triangles (Polygon collinear_polygon) (Fin 5))) = 0 \<and>
   polygon_to_3d_top no_triangles (Polygon collinear_polygon) (Fin 5) = empty_fragment \<and>
   length (mesh_i (polygon_to_3d_top diagonal_split (Polygon unit_square) (Fin 5))) = 2"
proof -
  have h: "list_all (\<lambda>p. no_triangles p = []) (polys_of (Polygon collinear_polygon))"
    by (simp add: no_triangles_def)
  have n: "length (concat (map diagonal_split (polys_of (Polygon unit_square)))) = 2"
    by (simp add: diagonal_split_def unit_square_def)
  from top_never_fails [of no_triangles "Polygon collinear_polygon" "Fin 5"]
    top_never_fails [of diagonal_split "Polygon unit_square" "Fin 5"] h n
  show ?thesis by (simp add: empty_fragment_def)
qed

text \<open>
  The claim \<^bold>\<open>C7\<close> as stated fails: for a non-empty polygon on which the triangulation
  finds no triangle (its vertices are collinear) the call returns the empty fragment.
\<close>

theorem top_no_triangles_counterexample:
  "exterior collinear_polygon \<noteq> [] \<and>
   no_triangles collinear_polygon = [] \<and>
   polygon_to_3d_top no_triangles (Polygon collinear_polygon) (Fin 5) =
     \<lparr>mesh_x = [], mesh_y = [], mesh_z = [], mesh_i = [], mesh_j = [], mesh_k = []\<rparr>"
  by (simp add: collinear_polygon_def no_triangles_def polygon_to_3d_top_def top_poly_def
        empty_fragment_def)

text \<open>
  \<^bold>\<open>C8\<close>, as the code has it. Neither function inspects the height. A non-finite
  \<open>z_top\<close> is copied like any other: it is the z-coordinate of every vertex of the top
  fragment, and of the two top vertices of every wall edge.
\<close>

theorem non_finite_height_propagates:
  assumes "\<not> finite_height z_top"
  shows "mesh_z (polygon_to_3d_top triangulate g z_top) =
           replicate (3 * length (concat (map triangulate (polys_of g)))) z_top \<and>
         (geom_2d g \<longrightarrow>
            (\<exists>f. polygon_side_walls g z_top = Inr f \<and>
                 mesh_z f = concat (replicate (edge_count g) [z_top, z_top, Fin 0, Fin 0])))"
  by (simp add: polygon_to_3d_top_eq all_triangles_def top_fragment_def concat_const_replicate
        polygon_side_walls_eq wall_fragment_def concat_const_quad length_all_wall_edges)

theorem non_finite_height_propagates_witness:
  "\<not> finite_height NaN \<and> geom_2d (Polygon unit_square) \<and>
   mesh_z (polygon_to_3d_top diagonal_split (Polygon unit_square) NaN) =
     [NaN, NaN, NaN, NaN, NaN, NaN] \<and>
   (\<exists>f. polygon_side_walls (Polygon unit_square) NaN = Inr f \<and>
        mesh_z f = [NaN, NaN, Fin 0, Fin 0, NaN, NaN, Fin 0, Fin 0,
                    NaN, NaN, Fin 0, Fin 0, NaN, NaN, Fin 0, Fin 0])"
proof -
  have h: "\<not> finite_height NaN" by simp
  have g: "geom_2d (Polygon unit_square)" by (rule geom_2d_squares)
  have n: "edge_count (Polygon unit_square) = 4"
    by (simp add: edge_count_def edge_base_def strip_unit_square)
  have t: "length (diagonal_split unit_square) = 2"
    by (simp add: diagonal_split_def unit_square_def)
  have r4: "replicate 4 [NaN, NaN, Fin 0, Fin 0] =
      [[NaN, NaN, Fin 0, Fin 0], [NaN, NaN, Fin 0, Fin 0], [NaN, NaN, Fin 0, Fin 0],
       [NaN, NaN, Fin 0, Fin 0]]"
    by (simp add: numeral_eq_Suc)
  have r6: "replicate 6 NaN = [NaN, NaN, NaN, NaN, NaN, NaN]"
    by (simp add: numeral_eq_Suc)
  from non_finite_height_propagates [OF h, of diagonal_split "Polygon unit_square"] h g
  show ?thesis by (simp add: n t r4 r6)
qed

text \<open>
  The claim \<^bold>\<open>C8\<close> as stated fails: an infinite height and a NaN height both come back
  inside the returned fragments.
\<close>

theorem non_finite_height_counterexample:
  "polygon_to_3d_top diagonal_split (Polygon unit_square) PInf =
     \<lparr>mesh_x = [Fin 0, Fin 1, Fin 1, Fin 0, Fin 1, Fin 0],
      mesh_y = [Fin 0, Fin 0, Fin 1, Fin 0, Fin 1, Fin 1],
      mesh_z = [PInf, PInf, PInf, PInf, PInf, PInf],
      mesh_i = [0, 3], mesh_j = [1, 4], mesh_k = [2, 5]\<rparr> \<and>
   polygon_side_walls (Polygon unit_square) NaN =
     Inr \<lparr>mesh_x = [Fin 0, Fin 1, Fin 0, Fin 1, Fin 1, Fin 1, Fin 1, Fin 1,
                     Fin 1, Fin 0, Fin 1, Fin 0, Fin 0, Fin 0, Fin 0, Fin 0],
          mesh_y = [Fin 0, Fin 0, Fin 0, Fin 0, Fin 0, Fin 1, Fin 0, Fin 1,
                    Fin 1, Fin 1, Fin 1, Fin 1, Fin 1, Fin 0, Fin 1, Fin 0],
          mesh_z = [NaN, NaN, Fin 0, Fin 0, NaN, NaN, Fin 0, Fin 0,
                    NaN, NaN, Fin 0, Fin 0, NaN, NaN, Fin 0, Fin 0],
          mesh_i = [0, 1, 4, 5, 8, 9, 12, 13],
          mesh_j = [1, 3, 5, 7, 9, 11, 13, 15],
          mesh_k = [2, 2, 6, 6, 10, 10, 14, 14]\<rparr>"
proof -
  have "polygon_to_3d_top diagonal_split (Polygon unit_square) PInf =
     \<lparr>mesh_x = [Fin 0, Fin 1, Fin 1, Fin 0, Fin 1, Fin 0],
      mesh_y = [Fin 0, Fin 0, Fin 1, Fin 0, Fin 1, Fin 1],
      mesh_z = [PInf, PInf, PInf, PInf, PInf, PInf],
      mesh_i = [0, 3], mesh_j = [1, 4], mesh_k = [2, 5]\<rparr>"
    by (simp add: polygon_to_3d_top_def top_poly_def top_tri_def diagonal_split_def
          unit_square_def empty_fragment_def)
  moreover have "polygon_side_walls (Polygon unit_square) NaN =
     Inr \<lparr>mesh_x = [Fin 0, Fin 1, Fin 0, Fin 1, Fin 1, Fin 1, Fin 1, Fin 1,
                     Fin 1, Fin 0, Fin 1, Fin 0, Fin 0, Fin 0, Fin 0, Fin 0],
          mesh_y = [Fin 0, Fin 0, Fin 0, Fin 0, Fin 0, Fin 1, Fin 0, Fin 1,
                    Fin 1, Fin 1, Fin 1, Fin 1, Fin 1, Fin 0, Fin 1, Fin 0],
          mesh_z = [NaN, NaN, Fin 0, Fin 0, NaN, NaN, Fin 0, Fin 0,
                    NaN, NaN, Fin 0, Fin 0, NaN, NaN, Fin 0, Fin 0],
          mesh_i = [0, 1, 4, 5, 8, 9, 12, 13],
          mesh_j = [1, 3, 5, 7, 9, 11, 13, 15],
          mesh_k = [2, 2, 6, 6, 10, 10, 14, 14]\<rparr>"
    by (simp add: polygon_side_walls_def wall_poly_def strip_unit_square upt_4 wall_edge_def
          empty_fragment_def)
  ultimately show ?thesis by simp
qed

end
